theory Spec2Isabelle
  imports Complex_Main
begin

section \<open>Seeder utilities (packages/seeder/src/utils/seeder.ts)\<close>

text \<open>
  Block numbers are JavaScript \<open>bigint\<close>s, modelled as \<open>int\<close>. An exception thrown by
  the chain client, by the store or by the code itself is a value of \<open>error\<close>; a
  computation that may throw after it has changed its state returns the state together
  with \<open>Inl e\<close> (thrown) or \<open>Inr v\<close> (returned \<open>v\<close>).
\<close>

datatype error =
    RpcError
  | WriteError
  | Mismatch nat
  | EthPricesRequired
  | TypeError

text \<open>
  \<open>baseBlock\<close>: \<open>process.env.NETWORK\<close> is a parameter (\<open>None\<close> when unset; the empty
  string is falsy).
\<close>

definition baseBlock :: "string option \<Rightarrow> int" where
  "baseBlock network =
     (case network of
        None \<Rightarrow> 17000000
      | Some n \<Rightarrow> if n \<noteq> [] \<and> n = ''holesky'' then 1159609 else 17000000)"

text \<open>
  \<open>defaultBatchSize ? defaultBatchSize : 4999n\<close>: an absent argument and \<open>0n\<close> are both
  falsy.
\<close>

definition batchSizeOf :: "int option \<Rightarrow> int" where
  "batchSizeOf defaultBatchSize =
     (case defaultBatchSize of
        None \<Rightarrow> 4999
      | Some b \<Rightarrow> if b = 0 then 4999 else b)"

text \<open>
  The \<open>while\<close> loop of \<open>loopThroughBlocks\<close>, with its two variables \<open>currentBlock\<close> and
  \<open>nextBlock\<close>. The callback works on a state \<open>'s\<close>; when it throws, the loop is left
  with the exception. The loop need not terminate (a negative batch size never reaches
  \<open>lastBlock\<close>), so the result is an option and \<open>None\<close> means that the loop runs forever.
\<close>

partial_function (option) blocksLoop ::
  "(int \<Rightarrow> int \<Rightarrow> 's \<Rightarrow> 's \<times> (error + unit)) \<Rightarrow> int \<Rightarrow> int \<Rightarrow> int \<Rightarrow> int \<Rightarrow> 's
     \<Rightarrow> ('s \<times> (error + unit)) option" where
  "blocksLoop cb batchSize lastBlock currentBlock nextBlock s =
     (if nextBlock < lastBlock then
        (let nextBlock1 = currentBlock + batchSize;
             nextBlock2 = (if nextBlock1 \<ge> lastBlock then lastBlock else nextBlock1)
         in case cb currentBlock nextBlock2 s of
              (s', Inl e) \<Rightarrow> Some (s', Inl e)
            | (s', Inr u) \<Rightarrow> blocksLoop cb batchSize lastBlock nextBlock2 nextBlock2 s')
      else Some (s, Inr ()))"

definition loopThroughBlocks ::
  "int \<Rightarrow> int \<Rightarrow> (int \<Rightarrow> int \<Rightarrow> 's \<Rightarrow> 's \<times> (error + unit)) \<Rightarrow> int option \<Rightarrow> 's
     \<Rightarrow> ('s \<times> (error + int)) option" where
  "loopThroughBlocks firstBlock lastBlock cb defaultBatchSize s =
     (case blocksLoop cb (batchSizeOf defaultBatchSize) lastBlock firstBlock firstBlock s of
        None \<Rightarrow> None
      | Some (s', Inl e) \<Rightarrow> Some (s', Inl e)
      | Some (s', Inr u) \<Rightarrow> Some (s', Inr lastBlock))"

text \<open>
  A callback that only records the pair it is called with: the state is the list of the
  calls made so far, in order.
\<close>

definition recordCall :: "int \<Rightarrow> int \<Rightarrow> (int \<times> int) list \<Rightarrow> (int \<times> int) list \<times> (error + unit)" where
  "recordCall fromBlock toBlock calls = (calls @ [(fromBlock, toBlock)], Inr ())"


subsection \<open>The store and the chain client\<close>

text \<open>
  The persistent store, as far as the seeders use it: the \<open>settings\<close> table (key to
  value, the sync cursors), the \<open>evm_BlockData\<close> table (block number to timestamp) and
  the destination tables. The schema of the destination tables is not among the sources,
  so their content is kept as the list of the write operations committed on them, in
  order. \<open>txCount\<close> counts the write requests sent so far; it only indexes the failures
  of the environment below.
\<close>

record pod =
  pod_address :: string
  pod_owner :: string
  pod_blockNumber :: int
  pod_createdAtBlock :: int
  pod_updatedAtBlock :: int
  pod_createdAt :: int
  pod_updatedAt :: int

record shares_log =
  sl_address :: string
  sl_transactionHash :: string
  sl_transactionIndex :: int
  sl_blockNumber :: int
  sl_blockHash :: string
  sl_blockTime :: int
  sl_operator :: string
  sl_staker :: string
  sl_strategy :: string
  sl_shares :: string

datatype db_op =
    ValidatorRestakeDeleteMany
  | PodDeleteMany
  | PodCreateMany "pod list"
  | PodUpsert pod
  | OperatorSharesIncreasedCreateMany "shares_log list"
  | OperatorSharesDecreasedCreateMany "shares_log list"
  | SettingsUpsert string int

record store =
  settings :: "string \<rightharpoonup> int"
  evm_BlockData :: "int \<rightharpoonup> int"
  tableOps :: "db_op list"
  txCount :: nat

text \<open>
  A log as the chain client returns it. \<open>log_args\<close> holds the decoded arguments by name,
  each as the text \<open>String(...)\<close> gives for it; \<open>String\<close> of a missing argument is
  \<open>undefined\<close>.
\<close>

record raw_log =
  log_address :: string
  log_transactionHash :: string
  log_transactionIndex :: int
  log_blockNumber :: int
  log_blockHash :: string
  log_logIndex :: int
  log_eventName :: string
  log_args :: "(string \<times> string) list"

text \<open>
  The environment of a run: \<open>process.env.NETWORK\<close>, the chain client (each call may
  throw) and, for every write request sent to the store, whether it fails.
\<close>

record env =
  network :: "string option"
  getLogs :: "int \<Rightarrow> int \<Rightarrow> error + raw_log list"
  getBlock :: "int \<Rightarrow> error + int"
  getBlockNumber :: "error + int"
  transactionFails :: "nat \<Rightarrow> bool"

definition stringOfArg :: "raw_log \<Rightarrow> string \<Rightarrow> string" where
  "stringOfArg lg name =
     (case map_of (log_args lg) name of None \<Rightarrow> ''undefined'' | Some v \<Rightarrow> v)"

definition toLowerCase :: "string \<Rightarrow> string" where
  "toLowerCase str =
     map (\<lambda>c. if 65 \<le> (of_char c :: nat) \<and> (of_char c :: nat) \<le> 90
              then char_of (of_char c + 32 :: nat) else c) str"

text \<open>
  Modelled from the spec: \<open>chunkArray\<close> (utils/array.ts) is not among the sources. The
  spec has the writer apply the pending operations "as one or more atomic chunks of
  bounded size (default 1000 operations per transaction)": consecutive slices of at most
  \<open>n\<close> operations, in order.
\<close>

function chunkArray :: "'a list \<Rightarrow> nat \<Rightarrow> 'a list list" where
  "chunkArray arr n =
     (if arr = [] \<or> n = 0 then [] else take n arr # chunkArray (drop n arr) n)"
  by pat_completeness auto
termination
  by (relation "measure (\<lambda>(arr, n). length arr)") auto

declare chunkArray.simps [simp del]

fun applyOp :: "db_op \<Rightarrow> store \<Rightarrow> store" where
  "applyOp (SettingsUpsert k v) st = st\<lparr>settings := (settings st)(k \<mapsto> v)\<rparr>"
| "applyOp ValidatorRestakeDeleteMany st = st\<lparr>tableOps := tableOps st @ [ValidatorRestakeDeleteMany]\<rparr>"
| "applyOp PodDeleteMany st = st\<lparr>tableOps := tableOps st @ [PodDeleteMany]\<rparr>"
| "applyOp (PodCreateMany ps) st = st\<lparr>tableOps := tableOps st @ [PodCreateMany ps]\<rparr>"
| "applyOp (PodUpsert p) st = st\<lparr>tableOps := tableOps st @ [PodUpsert p]\<rparr>"
| "applyOp (OperatorSharesIncreasedCreateMany ls) st =
     st\<lparr>tableOps := tableOps st @ [OperatorSharesIncreasedCreateMany ls]\<rparr>"
| "applyOp (OperatorSharesDecreasedCreateMany ls) st =
     st\<lparr>tableOps := tableOps st @ [OperatorSharesDecreasedCreateMany ls]\<rparr>"

text \<open>
  \<open>prismaClient.$transaction(chunk)\<close>: all the operations of the chunk, or none of them
  and an exception.
\<close>

definition transaction :: "env \<Rightarrow> db_op list \<Rightarrow> store \<Rightarrow> store \<times> (error + unit)" where
  "transaction e chunk st =
     (if transactionFails e (txCount st)
      then (st\<lparr>txCount := Suc (txCount st)\<rparr>, Inl WriteError)
      else ((fold applyOp chunk st)\<lparr>txCount := Suc (txCount st)\<rparr>, Inr ()))"

fun runChunks :: "env \<Rightarrow> db_op list list \<Rightarrow> store \<Rightarrow> store \<times> (error + unit)" where
  "runChunks e [] st = (st, Inr ())"
| "runChunks e (chunk # rest) st =
     (case transaction e chunk st of
        (st', Inl err) \<Rightarrow> (st', Inl err)
      | (st', Inr u) \<Rightarrow> runChunks e rest st')"

definition bulkUpdateDbTransactions ::
  "env \<Rightarrow> db_op list \<Rightarrow> store \<Rightarrow> store \<times> (error + unit)" where
  "bulkUpdateDbTransactions e dbTransactions st =
     runChunks e (chunkArray dbTransactions 1000) st"

text \<open>
  \<open>fetchLastSyncBlock\<close>: \<open>lastSyncedBlockData?.value ? BigInt(value) : baseBlock\<close>. The
  stored value is a number; 0 is falsy.
\<close>

definition fetchLastSyncBlock :: "env \<Rightarrow> store \<Rightarrow> string \<Rightarrow> int" where
  "fetchLastSyncBlock e st key =
     (case settings st key of
        None \<Rightarrow> baseBlock (network e)
      | Some v \<Rightarrow> if v \<noteq> 0 then v else baseBlock (network e))"


definition getBlockDataFromDb :: "store \<Rightarrow> int \<Rightarrow> int \<Rightarrow> (int \<rightharpoonup> int)" where
  "getBlockDataFromDb st fromBlock toBlock =
     (\<lambda>n. if fromBlock \<le> n \<and> n \<le> toBlock then evm_BlockData st n else None)"

text \<open>
  \<open>x ? f(x) : y\<close> on an optional \<open>bigint\<close> argument \<open>x\<close>: absent and \<open>0n\<close> are falsy.
\<close>

definition ifTruthy :: "int option \<Rightarrow> (int \<Rightarrow> 'a) \<Rightarrow> 'a \<Rightarrow> 'a" where
  "ifTruthy x f y = (case x of None \<Rightarrow> y | Some v \<Rightarrow> if v \<noteq> 0 then f v else y)"

section \<open>Seeding pods (seedPods)\<close>


definition podOfLog :: "raw_log \<Rightarrow> int \<Rightarrow> pod" where
  "podOfLog lg blockTimestamp =
     \<lparr> pod_address = toLowerCase (stringOfArg lg ''eigenPod''),
       pod_owner = toLowerCase (stringOfArg lg ''podOwner''),
       pod_blockNumber = log_blockNumber lg,
       pod_createdAtBlock = log_blockNumber lg,
       pod_updatedAtBlock = log_blockNumber lg,
       pod_createdAt = blockTimestamp * 1000,
       pod_updatedAt = blockTimestamp * 1000 \<rparr>"

text \<open>The \<open>for\<close> loop over the logs of one batch; \<open>getBlock\<close> may throw.\<close>

fun decodePodLogs :: "env \<Rightarrow> raw_log list \<Rightarrow> pod list \<Rightarrow> pod list \<times> (error + unit)" where
  "decodePodLogs e [] podList = (podList, Inr ())"
| "decodePodLogs e (lg # logs) podList =
     (case getBlock e (log_blockNumber lg) of
        Inl err \<Rightarrow> (podList, Inl err)
      | Inr ts \<Rightarrow> decodePodLogs e logs (podList @ [podOfLog lg ts]))"




section \<open>Seeding operator share logs (seedLogsOperatorShares)\<close>

definition blockSyncKeyLogs :: string where
  "blockSyncKeyLogs = ''lastSyncedBlock_logs_operatorShares''"

text \<open>
  The variables of \<open>seedLogsOperatorShares\<close> that its callback changes: the three arrays
  declared before the loop, and the store.
\<close>

record seed_state =
  dbTransactions :: "db_op list"
  logsOperatorSharesIncreased :: "shares_log list"
  logsOperatorSharesDecreased :: "shares_log list"
  db :: store

definition initialSeedState :: "store \<Rightarrow> seed_state" where
  "initialSeedState st =
     \<lparr> dbTransactions = [], logsOperatorSharesIncreased = [],
       logsOperatorSharesDecreased = [], db = st \<rparr>"

definition sharesLogOf :: "(int \<rightharpoonup> int) \<Rightarrow> raw_log \<Rightarrow> shares_log" where
  "sharesLogOf blockData lg =
     \<lparr> sl_address = log_address lg,
       sl_transactionHash = log_transactionHash lg,
       sl_transactionIndex = log_transactionIndex lg,
       sl_blockNumber = log_blockNumber lg,
       sl_blockHash = log_blockHash lg,
       sl_blockTime = (case blockData (log_blockNumber lg) of None \<Rightarrow> 0 | Some t \<Rightarrow> t),
       sl_operator = stringOfArg lg ''operator'',
       sl_staker = stringOfArg lg ''staker'',
       sl_strategy = stringOfArg lg ''strategy'',
       sl_shares = stringOfArg lg ''shares'' \<rparr>"

text \<open>
  The \<open>for\<close> loop over the logs of one batch: every log is pushed to both lists, whatever
  its event name.
\<close>

fun pushLogs ::
  "(int \<rightharpoonup> int) \<Rightarrow> raw_log list \<Rightarrow> shares_log list \<times> shares_log list
     \<Rightarrow> shares_log list \<times> shares_log list" where
  "pushLogs blockData [] (increased, decreased) = (increased, decreased)"
| "pushLogs blockData (lg # logs) (increased, decreased) =
     pushLogs blockData logs
       (increased @ [sharesLogOf blockData lg], decreased @ [sharesLogOf blockData lg])"

text \<open>
  The body of the \<open>try\<close> block of the callback, which may throw, and the callback itself:
  \<open>catch (error) {}\<close> keeps whatever the body changed before it threw, and returns
  normally. \<open>dbTransactions\<close> is declared before the loop and never emptied, so the
  operations of the earlier batches are sent again with each batch; a \<open>createMany\<close> is
  recorded with the content its list has when it is pushed.
\<close>

definition seedLogsTry ::
  "env \<Rightarrow> (int \<rightharpoonup> int) \<Rightarrow> int \<Rightarrow> int \<Rightarrow> seed_state \<Rightarrow> seed_state \<times> (error + unit)" where
  "seedLogsTry e blockData fromBlock toBlock s =
     (case getLogs e fromBlock toBlock of
        Inl err \<Rightarrow> (s, Inl err)
      | Inr logs \<Rightarrow>
          (case pushLogs blockData logs
                  (logsOperatorSharesIncreased s, logsOperatorSharesDecreased s) of
             (increased, decreased) \<Rightarrow>
               (let txs = dbTransactions s @
                            [OperatorSharesIncreasedCreateMany increased,
                             OperatorSharesDecreasedCreateMany decreased,
                             SettingsUpsert blockSyncKeyLogs toBlock]
                in case bulkUpdateDbTransactions e txs (db s) of
                     (st', r) \<Rightarrow>
                       (\<lparr> dbTransactions = txs,
                          logsOperatorSharesIncreased = increased,
                          logsOperatorSharesDecreased = decreased,
                          db = st' \<rparr>, r))))"

definition seedLogsBatch ::
  "env \<Rightarrow> (int \<rightharpoonup> int) \<Rightarrow> int \<Rightarrow> int \<Rightarrow> seed_state \<Rightarrow> seed_state \<times> (error + unit)" where
  "seedLogsBatch e blockData fromBlock toBlock s =
     (case seedLogsTry e blockData fromBlock toBlock s of (s', r) \<Rightarrow> (s', Inr ()))"

definition seedLogsOperatorShares ::
  "env \<Rightarrow> int option \<Rightarrow> int option \<Rightarrow> store \<Rightarrow> (seed_state \<times> (error + unit)) option" where
  "seedLogsOperatorShares e toBlock fromBlock st =
     (let s0 = initialSeedState st;
          firstBlock = ifTruthy fromBlock (\<lambda>b. b) (fetchLastSyncBlock e st blockSyncKeyLogs)
      in case ifTruthy toBlock Inr (getBlockNumber e) of
           Inl err \<Rightarrow> Some (s0, Inl err)
         | Inr lastBlock \<Rightarrow>
             (case loopThroughBlocks firstBlock lastBlock
                     (seedLogsBatch e (getBlockDataFromDb st firstBlock lastBlock)) None s0 of
                None \<Rightarrow> None
              | Some (s', Inl err) \<Rightarrow> Some (s', Inl err)
              | Some (s', Inr r) \<Rightarrow> Some (s', Inr ())))"

section \<open>The metric aggregator (historical TVL and aggregate routes)\<close>

text \<open>
  A \<open>Date\<close> is its \<open>getTime()\<close>, milliseconds as an \<open>int\<close>; the ISO string of a
  result is kept as that number (\<open>toISOString\<close> is one-to-one on valid dates). A
  JavaScript \<open>number\<close> that holds a TVL is a \<open>real\<close>: the arithmetic of the code is
  read as exact arithmetic, and \<open>Number(...)\<close> of a stored decimal as the identity.
  A row of an hourly metric table carries the columns the code reads; which of them a
  table has depends on the model (\<open>tvlEth\<close>, \<open>changeTvlEth\<close> for the ETH-denominated
  models, \<open>strategyAddress\<close>, \<open>tvl\<close>, \<open>changeTvl\<close> for \<open>metricStrategyHourly\<close>).
\<close>

record metric_row =
  mr_timestamp :: int
  mr_strategyAddress :: string
  mr_tvl :: real
  mr_changeTvl :: real
  mr_tvlEth :: real
  mr_changeTvlEth :: real

record historical_tvl_record =
  htr_timestamp :: int
  htr_tvlEth :: real

record tvl_change =
  tc_value :: real
  tc_percent :: real

record tvl_changes =
  tcs_tvl :: real
  tcs_change24h :: tvl_change
  tcs_change7d :: tvl_change

text \<open>
  The hourly metric tables of the store, under the names of their delegates on the
  \<open>prisma\<close> client, and \<open>prisma[modelName]\<close>: a name that is none of the four
  (\<open>MetricModelName\<close>) has no hourly metric table, and the lookup is \<open>undefined\<close>.
\<close>

record metric_db =
  metricEigenPodsHourly :: "metric_row list"
  metricStrategyHourly :: "metric_row list"
  metricDepositHourly :: "metric_row list"
  metricWithdrawalHourly :: "metric_row list"

definition prismaModel :: "metric_db \<Rightarrow> string \<Rightarrow> metric_row list option" where
  "prismaModel mdb modelName =
     (if modelName = ''metricEigenPodsHourly'' then Some (metricEigenPodsHourly mdb)
      else if modelName = ''metricStrategyHourly'' then Some (metricStrategyHourly mdb)
      else if modelName = ''metricDepositHourly'' then Some (metricDepositHourly mdb)
      else if modelName = ''metricWithdrawalHourly'' then Some (metricWithdrawalHourly mdb)
      else None)"

definition beaconAddress :: string where
  "beaconAddress = ''0xbeac0eeeeeeeeeeeeeeeeeeeeeeeeeeeeeebeac0''"

definition getOffsetInMs :: "string \<Rightarrow> int" where
  "getOffsetInMs frequency =
     (if frequency = ''1h'' then 3600000
      else if frequency = ''1d'' then 86400000
      else if frequency = ''7d'' then 604800000
      else 3600000)"

definition resetTime :: "int \<Rightarrow> int" where
  "resetTime date = date - date mod 3600000"

definition calculateTvlChanges :: "real \<Rightarrow> real \<Rightarrow> real \<Rightarrow> tvl_changes" where
  "calculateTvlChanges currentTvl tvl24hOffset tvl7dOffset =
     \<lparr> tcs_tvl = currentTvl,
       tcs_change24h =
         \<lparr> tc_value = currentTvl - tvl24hOffset,
           tc_percent = (if tvl24hOffset = 0 then 0
                         else (currentTvl - tvl24hOffset) / tvl24hOffset) \<rparr>,
       tcs_change7d =
         \<lparr> tc_value = currentTvl - tvl7dOffset,
           tc_percent = (if tvl7dOffset = 0 then 0
                         else (currentTvl - tvl7dOffset) / tvl7dOffset) \<rparr> \<rparr>"

text \<open>
  The two queries on an hourly table: \<open>findMany\<close> with \<open>timestamp\<close> between \<open>gte\<close> and
  \<open>lte\<close>, ordered by ascending timestamp, and \<open>findFirst\<close> with \<open>timestamp\<close> below
  \<open>lt\<close>, ordered by descending timestamp.
\<close>

definition findManyInWindow :: "metric_row list \<Rightarrow> int \<Rightarrow> int \<Rightarrow> metric_row list" where
  "findManyInWindow table gte lte =
     sort_key mr_timestamp (filter (\<lambda>r. gte \<le> mr_timestamp r \<and> mr_timestamp r \<le> lte) table)"

definition findFirstBefore :: "metric_row list \<Rightarrow> int \<Rightarrow> metric_row option" where
  "findFirstBefore table lt =
     (case rev (sort_key mr_timestamp (filter (\<lambda>r. mr_timestamp r < lt) table)) of
        [] \<Rightarrow> None
      | r # rs \<Rightarrow> Some r)"

text \<open>
  The \<open>findMany\<close> of \<open>doGetHistoricalTvlRestaking\<close>. In its \<open>where\<close> object the two
  spreads write the same key \<open>strategyAddress\<close>, so the later one
  (\<open>not: beaconAddress\<close>) replaces the filter on \<open>address\<close> when both apply; an absent or
  empty \<open>address\<close> is falsy.
\<close>

definition findManyStrategyInWindow ::
  "metric_row list \<Rightarrow> string option \<Rightarrow> bool \<Rightarrow> int \<Rightarrow> int \<Rightarrow> metric_row list" where
  "findManyStrategyInWindow table address includeBeaconInTvl gte lte =
     filter (\<lambda>r. if \<not> includeBeaconInTvl then mr_strategyAddress r \<noteq> beaconAddress
                  else (case address of
                          None \<Rightarrow> True
                        | Some a \<Rightarrow> a = [] \<or> mr_strategyAddress r = toLowerCase a))
       (findManyInWindow table gte lte)"

text \<open>\<open>ethPrices?.get(address) || 0\<close>\<close>

definition priceOf :: "(string \<rightharpoonup> real) option \<Rightarrow> string \<Rightarrow> real" where
  "priceOf ethPrices address =
     (case ethPrices of
        None \<Rightarrow> 0
      | Some prices \<Rightarrow> (case prices address of None \<Rightarrow> 0 | Some p \<Rightarrow> p))"

text \<open>
  \<open>getInitialTvlCumulative\<close>. When the first row of the window is not at
  \<open>startTimestamp\<close>, the code calls \<open>findFirst\<close> on \<open>prisma[modelName]\<close>; on
  \<open>undefined\<close> that call throws a \<open>TypeError\<close>.
\<close>

definition getInitialTvlCumulative ::
  "metric_db \<Rightarrow> int \<Rightarrow> metric_row list \<Rightarrow> bool \<Rightarrow> string \<Rightarrow> (string \<rightharpoonup> real) option
     \<Rightarrow> error + real" where
  "getInitialTvlCumulative mdb startTimestamp hourlyData isEthDenominated modelName ethPrices =
     (if \<not> isEthDenominated \<and> ethPrices = None then Inl EthPricesRequired
      else if hourlyData \<noteq> [] \<and> mr_timestamp (hd hourlyData) = startTimestamp then
        (if isEthDenominated then Inr (mr_tvlEth (hd hourlyData))
         else Inr (mr_tvl (hd hourlyData)
                     * priceOf ethPrices (mr_strategyAddress (hd hourlyData))))
      else
        (case prismaModel mdb modelName of
           None \<Rightarrow> Inl TypeError
         | Some model \<Rightarrow>
             (case findFirstBefore model startTimestamp of
                None \<Rightarrow> Inr 0
              | Some result \<Rightarrow>
                  (if isEthDenominated then Inr (mr_tvlEth result)
                   else Inr (mr_tvl result * priceOf ethPrices beaconAddress)))))"

definition calculateTvlForHistoricalRecord ::
  "metric_row list \<Rightarrow> string \<Rightarrow> real \<Rightarrow> bool \<Rightarrow> (string \<rightharpoonup> real) option \<Rightarrow> error + real" where
  "calculateTvlForHistoricalRecord intervalData variant previousTvl isEthDenominated ethPrices =
     (if \<not> isEthDenominated \<and> ethPrices = None then Inl EthPricesRequired
      else if variant = ''cumulative'' then
        (if length intervalData > 0 then
           (if isEthDenominated then Inr (mr_tvlEth (last intervalData))
            else Inr (mr_tvl (last intervalData)
                        * priceOf ethPrices (mr_strategyAddress (last intervalData))))
         else Inr previousTvl)
      else
        Inr (foldl (\<lambda>sum record.
                      if isEthDenominated then sum + mr_changeTvlEth record
                      else sum + mr_changeTvl record
                                   * priceOf ethPrices (mr_strategyAddress record))
                   0 intervalData))"

text \<open>
  The \<open>while\<close> loop of \<open>doGetHistoricalTvlBeacon\<close>, \<open>doGetHistoricalTvlRestaking\<close> and
  \<open>doGetHistoricalTvlWithdrawalDeposit\<close>: the three loops are the same text up to the
  last two arguments of \<open>calculateTvlForHistoricalRecord\<close>. \<open>offset\<close> is the constant
  \<open>getOffsetInMs(frequency)\<close>, which is positive, so the loop terminates; the points are
  pushed in the order of the walk.
\<close>

function historicalTvlLoop ::
  "string \<Rightarrow> string \<Rightarrow> bool \<Rightarrow> (string \<rightharpoonup> real) option \<Rightarrow> metric_row list \<Rightarrow> int
     \<Rightarrow> int \<Rightarrow> real \<Rightarrow> error + historical_tvl_record list" where
  "historicalTvlLoop frequency variant isEthDenominated ethPrices hourlyData endTimestamp
       currentTimestamp tvlEth =
     (if currentTimestamp \<le> endTimestamp then
        (let nextTimestamp = currentTimestamp + getOffsetInMs frequency;
             intervalData = filter (\<lambda>d. mr_timestamp d \<ge> currentTimestamp
                                          \<and> mr_timestamp d < nextTimestamp) hourlyData
         in case calculateTvlForHistoricalRecord intervalData variant tvlEth
                   isEthDenominated ethPrices of
              Inl err \<Rightarrow> Inl err
            | Inr tvlEth' \<Rightarrow>
                (case historicalTvlLoop frequency variant isEthDenominated ethPrices hourlyData
                        endTimestamp nextTimestamp tvlEth' of
                   Inl err \<Rightarrow> Inl err
                 | Inr results \<Rightarrow>
                     Inr (\<lparr> htr_timestamp = currentTimestamp, htr_tvlEth = tvlEth' \<rparr> # results)))
      else Inr [])"
  by pat_completeness auto
termination
  by (relation "measure (\<lambda>(frequency, variant, isEth, ethPrices, hourlyData, endTimestamp,
                            currentTimestamp, tvlEth). nat (endTimestamp + 1 - currentTimestamp))")
     (auto simp: getOffsetInMs_def)

declare historicalTvlLoop.simps [simp del]

definition doGetHistoricalTvlBeacon ::
  "metric_db \<Rightarrow> int \<Rightarrow> int \<Rightarrow> string \<Rightarrow> string \<Rightarrow> error + historical_tvl_record list" where
  "doGetHistoricalTvlBeacon mdb startAt endAt frequency variant =
     (let startTimestamp = resetTime startAt;
          endTimestamp = resetTime endAt;
          hourlyData = findManyInWindow (metricEigenPodsHourly mdb) startTimestamp endTimestamp
      in case (if variant = ''cumulative''
               then getInitialTvlCumulative mdb startTimestamp hourlyData True
                      ''metricEigenPodsHourly'' None
               else Inr 0) of
           Inl err \<Rightarrow> Inl err
         | Inr tvlEth \<Rightarrow>
             historicalTvlLoop frequency variant True None hourlyData endTimestamp
               startTimestamp tvlEth)"

text \<open>
  \<open>doGetHistoricalTvlRestaking\<close>; \<open>ethPrices\<close> is what \<open>fetchCurrentEthPrices\<close> returned.
\<close>

definition doGetHistoricalTvlRestaking ::
  "metric_db \<Rightarrow> (string \<rightharpoonup> real) \<Rightarrow> int \<Rightarrow> int \<Rightarrow> string \<Rightarrow> string \<Rightarrow> string option
     \<Rightarrow> bool \<Rightarrow> error + historical_tvl_record list" where
  "doGetHistoricalTvlRestaking mdb ethPrices startAt endAt frequency variant
       address includeBeaconInTvl =
     (let startTimestamp = resetTime startAt;
          endTimestamp = resetTime endAt;
          hourlyData = findManyStrategyInWindow (metricStrategyHourly mdb) address
                         includeBeaconInTvl startTimestamp endTimestamp
      in case (if variant = ''cumulative''
               then getInitialTvlCumulative mdb startTimestamp hourlyData False
                      ''metricStrategyHourly'' (Some ethPrices)
               else Inr 0) of
           Inl err \<Rightarrow> Inl err
         | Inr tvlEth \<Rightarrow>
             historicalTvlLoop frequency variant False (Some ethPrices) hourlyData endTimestamp
               startTimestamp tvlEth)"

text \<open>
  \<open>doGetHistoricalTvlWithdrawalDeposit\<close>: the rows of the window are read from
  \<open>metricDepositHourly\<close> whatever \<open>modelName\<close> is; \<open>modelName\<close> only reaches
  \<open>getInitialTvlCumulative\<close>. (The two routes pass \<open>withdrawalMetricHourly\<close> and
  \<open>depositMetricHourly\<close>.)
\<close>

definition doGetHistoricalTvlWithdrawalDeposit ::
  "metric_db \<Rightarrow> string \<Rightarrow> int \<Rightarrow> int \<Rightarrow> string \<Rightarrow> string
     \<Rightarrow> error + historical_tvl_record list" where
  "doGetHistoricalTvlWithdrawalDeposit mdb modelName startAt endAt frequency variant =
     (let startTimestamp = resetTime startAt;
          endTimestamp = resetTime endAt;
          hourlyData = findManyInWindow (metricDepositHourly mdb) startTimestamp endTimestamp
      in case (if variant = ''cumulative''
               then getInitialTvlCumulative mdb startTimestamp hourlyData True modelName None
               else Inr 0) of
           Inl err \<Rightarrow> Inl err
         | Inr tvlEth \<Rightarrow>
             historicalTvlLoop frequency variant True None hourlyData endTimestamp
               startTimestamp tvlEth)"

text \<open>
  The callback of \<open>beaconTvl.map\<close> in \<open>doGetHistoricalTvlTotal\<close>, applied from \<open>index\<close>
  on: \<open>restakingTvl[index]\<close> is undefined beyond the end of the array.
\<close>

fun combineTvl ::
  "nat \<Rightarrow> historical_tvl_record list \<Rightarrow> historical_tvl_record list
     \<Rightarrow> error + historical_tvl_record list" where
  "combineTvl index [] restakingTvl = Inr []"
| "combineTvl index (beaconEntry # beaconRest) restakingTvl =
     (if index \<ge> length restakingTvl
         \<or> htr_timestamp beaconEntry \<noteq> htr_timestamp (restakingTvl ! index)
      then Inl (Mismatch index)
      else (case combineTvl (Suc index) beaconRest restakingTvl of
              Inl err \<Rightarrow> Inl err
            | Inr results \<Rightarrow>
                Inr (\<lparr> htr_timestamp = htr_timestamp beaconEntry,
                       htr_tvlEth = htr_tvlEth beaconEntry
                                      + htr_tvlEth (restakingTvl ! index) \<rparr> # results)))"


subsection \<open>doGetHistoricalAvsAggregate\<close>

record avs_row =
  ar_timestamp :: int
  ar_avsAddress :: string
  ar_tvlEth :: real
  ar_totalStakers :: int
  ar_totalOperators :: int
  ar_changeTvlEth :: real
  ar_changeStakers :: int
  ar_changeOperators :: int

record avs_point =
  ap_timestamp :: int
  ap_tvlEth :: real
  ap_totalStakers :: int
  ap_totalOperators :: int

text \<open>
  \<open>{ '1h': 3600000, '1d': 86400000, '7d': 604800000 }[frequency] || 3600000\<close>. The
  lookup on the object literal follows the prototype chain: the name of a member of
  \<open>Object.prototype\<close> finds that member, a function or an object, which is truthy and
  becomes \<open>timeInterval\<close>. \<open>None\<close> stands for such a value, which is not a number.
\<close>

definition objectPrototypeMembers :: "string list" where
  "objectPrototypeMembers =
     [''constructor'', ''hasOwnProperty'', ''isPrototypeOf'', ''propertyIsEnumerable'',
      ''toLocaleString'', ''toString'', ''valueOf'', ''__proto__'',
      ''__defineGetter__'', ''__defineSetter__'', ''__lookupGetter__'', ''__lookupSetter__'']"

definition avsTimeInterval :: "string \<Rightarrow> int option" where
  "avsTimeInterval frequency =
     (case map_of [(''1h'', 3600000), (''1d'', 86400000), (''7d'', 604800000)] frequency of
        Some ms \<Rightarrow> Some (if ms = 0 then 3600000 else ms)
      | None \<Rightarrow> if frequency \<in> set objectPrototypeMembers then None else Some 3600000)"

text \<open>The values of one bucket, from the rows of the bucket and the previous values.\<close>

definition avsBucketValues ::
  "string \<Rightarrow> avs_row list \<Rightarrow> real \<times> int \<times> int \<Rightarrow> real \<times> int \<times> int" where
  "avsBucketValues variant intervalData previous =
     (if variant = ''cumulative'' then
        (if length intervalData > 0
         then (ar_tvlEth (last intervalData), ar_totalStakers (last intervalData),
               ar_totalOperators (last intervalData))
         else previous)
      else
        (foldl (\<lambda>sum record. sum + ar_changeTvlEth record) 0 intervalData,
         foldl (\<lambda>sum record. sum + ar_changeStakers record) 0 intervalData,
         foldl (\<lambda>sum record. sum + ar_changeOperators record) 0 intervalData))"

text \<open>
  The \<open>while\<close> loop of \<open>doGetHistoricalAvsAggregate\<close>. When \<open>timeInterval\<close> is not a
  number, \<open>currentTimestamp.getTime() + timeInterval\<close> is a string and \<open>nextTimestamp\<close>
  an invalid date: every comparison with it is false, so the bucket has no rows and the
  loop ends after this point.
\<close>

function avsAggregateLoop ::
  "string \<Rightarrow> string \<Rightarrow> avs_row list \<Rightarrow> int \<Rightarrow> int \<Rightarrow> real \<times> int \<times> int \<Rightarrow> avs_point list" where
  "avsAggregateLoop frequency variant hourlyData endTimestamp currentTimestamp previous =
     (if currentTimestamp \<le> endTimestamp then
        (case avsTimeInterval frequency of
           Some timeInterval \<Rightarrow>
             (let nextTimestamp = currentTimestamp + timeInterval;
                  intervalData = filter (\<lambda>d. ar_timestamp d \<ge> currentTimestamp
                                               \<and> ar_timestamp d < nextTimestamp) hourlyData;
                  values = avsBucketValues variant intervalData previous
              in \<lparr> ap_timestamp = currentTimestamp, ap_tvlEth = fst values,
                   ap_totalStakers = fst (snd values), ap_totalOperators = snd (snd values) \<rparr>
                 # avsAggregateLoop frequency variant hourlyData endTimestamp nextTimestamp
                     values)
         | None \<Rightarrow>
             (let values = avsBucketValues variant [] previous
              in [\<lparr> ap_timestamp = currentTimestamp, ap_tvlEth = fst values,
                     ap_totalStakers = fst (snd values),
                     ap_totalOperators = snd (snd values) \<rparr>]))
      else [])"
  by pat_completeness auto
termination
  by (relation "measure (\<lambda>(frequency, variant, hourlyData, endTimestamp, currentTimestamp,
                            previous). nat (endTimestamp + 1 - currentTimestamp))")
     (auto simp: avsTimeInterval_def split: option.splits if_splits)

declare avsAggregateLoop.simps [simp del]

definition doGetHistoricalAvsAggregate ::
  "avs_row list \<Rightarrow> string \<Rightarrow> int \<Rightarrow> int \<Rightarrow> string \<Rightarrow> string \<Rightarrow> avs_point list" where
  "doGetHistoricalAvsAggregate metricAvsHourly address startAt endAt frequency variant =
     (let startTimestamp = resetTime startAt;
          endTimestamp = resetTime endAt;
          hourlyData =
            sort_key ar_timestamp
              (filter (\<lambda>r. startTimestamp \<le> ar_timestamp r \<and> ar_timestamp r \<le> endTimestamp
                            \<and> ar_avsAddress r = toLowerCase address) metricAvsHourly);
          initial =
            (if variant = ''cumulative'' then
               (if length hourlyData > 0 \<and> ar_timestamp (hd hourlyData) = startTimestamp
                then (ar_tvlEth (hd hourlyData), ar_totalStakers (hd hourlyData),
                      ar_totalOperators (hd hourlyData))
                else
                  (case rev (sort_key ar_timestamp
                               (filter (\<lambda>r. ar_timestamp r < startTimestamp
                                             \<and> ar_avsAddress r = toLowerCase address)
                                  metricAvsHourly)) of
                     [] \<Rightarrow> (0, 0, 0)
                   | result # rs \<Rightarrow>
                       (ar_tvlEth result, ar_totalStakers result, ar_totalOperators result)))
             else (0, 0, 0))
      in avsAggregateLoop frequency variant hourlyData endTimestamp startTimestamp initial)"

section \<open>Example inputs\<close>

text \<open>
  An empty store, two logs, and environments built from the answers of \<open>getLogs\<close> and
  the failures of the store, used where a result below is stated at a concrete run.
\<close>

definition emptyStore :: store where
  "emptyStore = \<lparr> settings = Map.empty, evm_BlockData = Map.empty, tableOps = [], txCount = 0 \<rparr>"

definition exampleLog :: raw_log where
  "exampleLog =
     \<lparr> log_address = ''0xD1'', log_transactionHash = ''0xA1'', log_transactionIndex = 0,
       log_blockNumber = 3, log_blockHash = ''0xB1'', log_logIndex = 0,
       log_eventName = ''OperatorSharesIncreased'',
       log_args = [(''operator'', ''0xO1''), (''staker'', ''0xS1''),
                   (''strategy'', ''0xT1''), (''shares'', ''100'')] \<rparr>"


definition exampleEnv :: "(int \<Rightarrow> int \<Rightarrow> error + raw_log list) \<Rightarrow> (nat \<Rightarrow> bool) \<Rightarrow> env" where
  "exampleEnv logs fails =
     \<lparr> network = None, getLogs = logs, getBlock = (\<lambda>n. Inr 1700000000),
       getBlockNumber = Inr 6000, transactionFails = fails \<rparr>"

text \<open>
  Hourly metric rows and stores: the beacon table of the spec's example (snapshots at
  \<open>t0 = 0\<close> with TVL 100 and at \<open>t0 + 3h\<close> with TVL 150) with a strategy table beside
  it, a store whose only beacon row lies before the window it is queried on, a store
  with one deposit row, a store with one strategy row of TVL 100, and an empty store.
\<close>

definition ethRow :: "int \<Rightarrow> real \<Rightarrow> real \<Rightarrow> metric_row" where
  "ethRow t tvlEth changeTvlEth =
     \<lparr> mr_timestamp = t, mr_strategyAddress = [], mr_tvl = 0, mr_changeTvl = 0,
       mr_tvlEth = tvlEth, mr_changeTvlEth = changeTvlEth \<rparr>"

definition strategyRow :: "int \<Rightarrow> string \<Rightarrow> real \<Rightarrow> real \<Rightarrow> metric_row" where
  "strategyRow t strategyAddress tvl changeTvl =
     \<lparr> mr_timestamp = t, mr_strategyAddress = strategyAddress, mr_tvl = tvl,
       mr_changeTvl = changeTvl, mr_tvlEth = 0, mr_changeTvlEth = 0 \<rparr>"

definition specExampleDb :: metric_db where
  "specExampleDb =
     \<lparr> metricEigenPodsHourly = [ethRow 0 100 100, ethRow 10800000 150 50],
       metricStrategyHourly = [strategyRow 0 ''0xs1'' 10 10, strategyRow 10800000 ''0xs1'' 20 10],
       metricDepositHourly = [], metricWithdrawalHourly = [] \<rparr>"

definition preWindowDb :: metric_db where
  "preWindowDb =
     \<lparr> metricEigenPodsHourly = [ethRow 0 42 42], metricStrategyHourly = [],
       metricDepositHourly = [], metricWithdrawalHourly = [] \<rparr>"

definition depositDb :: metric_db where
  "depositDb =
     \<lparr> metricEigenPodsHourly = [], metricStrategyHourly = [],
       metricDepositHourly = [ethRow 3600000 7 7], metricWithdrawalHourly = [] \<rparr>"

definition strategyDb :: metric_db where
  "strategyDb =
     \<lparr> metricEigenPodsHourly = [], metricStrategyHourly = [strategyRow 0 ''0xs1'' 100 100],
       metricDepositHourly = [], metricWithdrawalHourly = [] \<rparr>"

definition emptyDb :: metric_db where
  "emptyDb =
     \<lparr> metricEigenPodsHourly = [], metricStrategyHourly = [],
       metricDepositHourly = [], metricWithdrawalHourly = [] \<rparr>"

definition examplePrices :: "string \<rightharpoonup> real" where
  "examplePrices = [''0xs1'' \<mapsto> 2]"



text \<open>The chain read of the batch starting at block 1 fails; no write fails.\<close>

definition envRpcFails :: env where
  "envRpcFails = exampleEnv (\<lambda>f t. if f = 1 then Inl RpcError else Inr []) (\<lambda>n. False)"

text \<open>One log in the batch starting at block 1; nothing fails.\<close>

definition envOneLog :: "raw_log \<Rightarrow> env" where
  "envOneLog lg = exampleEnv (\<lambda>f t. if f = 1 then Inr [lg] else Inr []) (\<lambda>n. False)"

section \<open>Auxiliary definitions for the proofs\<close>


text \<open>
  The intervals the loop visits from \<open>currentBlock\<close> on, for a positive batch size, as a
  terminating function; \<open>blocksLoop_recordCall\<close> below shows that the loop makes exactly
  these calls.
\<close>

function intervalsFrom :: "int \<Rightarrow> int \<Rightarrow> int \<Rightarrow> (int \<times> int) list" where
  "intervalsFrom batchSize lastBlock currentBlock =
     (if currentBlock < lastBlock \<and> 0 < batchSize
      then (currentBlock, min (currentBlock + batchSize) lastBlock)
             # intervalsFrom batchSize lastBlock (min (currentBlock + batchSize) lastBlock)
      else [])"
  by pat_completeness auto
termination
  by (relation "measure (\<lambda>(b, l, c). nat (l - c))") auto

declare intervalsFrom.simps [simp del]

subsection \<open>The loop and the intervals it visits\<close>

lemma blocksLoop_recordCall:
  "0 < bs \<Longrightarrow>
   blocksLoop recordCall bs l c c acc = Some (acc @ intervalsFrom bs l c, Inr ())"
proof (induction bs l c arbitrary: acc rule: intervalsFrom.induct)
  case (1 bs l c)
  show ?case
  proof (cases "c < l")
    case True
    let ?n = "min (c + bs) l"
    have "blocksLoop recordCall bs l c c acc =
          blocksLoop recordCall bs l ?n ?n (acc @ [(c, ?n)])"
      using True by (subst blocksLoop.simps) (simp add: recordCall_def min_def Let_def)
    also have "\<dots> = Some ((acc @ [(c, ?n)]) @ intervalsFrom bs l ?n, Inr ())"
      using True "1.prems" by (intro "1.IH") simp_all
    also have "(acc @ [(c, ?n)]) @ intervalsFrom bs l ?n = acc @ intervalsFrom bs l c"
      using True "1.prems" by (subst (2) intervalsFrom.simps) simp
    finally show ?thesis .
  next
    case False
    then show ?thesis
      by (subst blocksLoop.simps, subst intervalsFrom.simps) simp
  qed
qed

lemma intervalsFrom_step:
  "c < l \<Longrightarrow> 0 < bs \<Longrightarrow>
   intervalsFrom bs l c = (c, min (c + bs) l) # intervalsFrom bs l (min (c + bs) l)"
  by (subst intervalsFrom.simps) simp

lemma intervalsFrom_done: "\<not> (c < l \<and> 0 < bs) \<Longrightarrow> intervalsFrom bs l c = []"
  by (subst intervalsFrom.simps) simp

lemma intervalsFrom_bounds:
  "(a, b) \<in> set (intervalsFrom bs l c) \<Longrightarrow> c \<le> a \<and> a < b \<and> b \<le> l \<and> b - a \<le> bs"
proof (induction bs l c rule: intervalsFrom.induct)
  case (1 bs l c)
  show ?case
  proof (cases "c < l \<and> 0 < bs")
    case True
    then have "(a, b) = (c, min (c + bs) l) \<or> (a, b) \<in> set (intervalsFrom bs l (min (c + bs) l))"
      using "1.prems" by (simp add: intervalsFrom_step)
    then show ?thesis
    proof
      assume "(a, b) = (c, min (c + bs) l)"
      then show ?thesis using True by auto
    next
      assume "(a, b) \<in> set (intervalsFrom bs l (min (c + bs) l))"
      from "1.IH" [OF True this] show ?thesis using True by auto
    qed
  next
    case False
    then show ?thesis using "1.prems" by (simp add: intervalsFrom_done)
  qed
qed

lemma intervalsFrom_chain:
  "c < l \<Longrightarrow> 0 < bs \<Longrightarrow>
   map fst (intervalsFrom bs l c) = c # butlast (map snd (intervalsFrom bs l c)) \<and>
   snd (last (intervalsFrom bs l c)) = l"
proof (induction bs l c rule: intervalsFrom.induct)
  case (1 bs l c)
  let ?n = "min (c + bs) l"
  have ok: "c < l \<and> 0 < bs" using "1.prems" by simp
  show ?case
  proof (cases "?n < l")
    case True
    from "1.IH" [OF ok True] "1.prems"
    have ih: "map fst (intervalsFrom bs l ?n) = ?n # butlast (map snd (intervalsFrom bs l ?n))"
      and il: "snd (last (intervalsFrom bs l ?n)) = l" by simp_all
    have ne: "intervalsFrom bs l ?n \<noteq> []"
      using True "1.prems" by (subst intervalsFrom.simps) simp
    show ?thesis
      using ih il ne "1.prems" by (simp add: intervalsFrom_step [of c])
  next
    case False
    then have "intervalsFrom bs l ?n = []" by (simp add: intervalsFrom_done)
    moreover have "?n = l" using False by simp
    ultimately show ?thesis using "1.prems" by (simp add: intervalsFrom_step [of c])
  qed
qed

lemma intervalsFrom_sorted:
  "sorted_wrt (\<lambda>p q. snd p \<le> fst q) (intervalsFrom bs l c)"
proof (induction bs l c rule: intervalsFrom.induct)
  case (1 bs l c)
  show ?case
  proof (cases "c < l \<and> 0 < bs")
    case True
    have "min (c + bs) l \<le> fst q" if "q \<in> set (intervalsFrom bs l (min (c + bs) l))" for q
      using intervalsFrom_bounds [of "fst q" "snd q" bs l "min (c + bs) l"] that by simp
    then have "\<forall>q \<in> set (intervalsFrom bs l (min (c + bs) l)). min (c + bs) l \<le> fst q"
      by (rule ballI)
    then show ?thesis
      using True "1.IH" [OF True] by (simp add: intervalsFrom_step [of c])
  next
    case False
    then show ?thesis by (simp add: intervalsFrom_done)
  qed
qed

lemma intervalsFrom_union:
  "c < l \<Longrightarrow> 0 < bs \<Longrightarrow> (\<Union>(a, b) \<in> set (intervalsFrom bs l c). {a..b}) = {c..l}"
proof (induction bs l c rule: intervalsFrom.induct)
  case (1 bs l c)
  let ?n = "min (c + bs) l"
  have ok: "c < l \<and> 0 < bs" using "1.prems" by simp
  show ?case
  proof (cases "?n < l")
    case True
    from "1.IH" [OF ok True] "1.prems"
    have "(\<Union>(a, b) \<in> set (intervalsFrom bs l ?n). {a..b}) = {?n..l}" by simp
    moreover have "{c..?n} \<union> {?n..l} = {c..l}" using "1.prems" by auto
    ultimately show ?thesis using "1.prems" by (simp add: intervalsFrom_step [of c])
  next
    case False
    then have "intervalsFrom bs l ?n = []" by (simp add: intervalsFrom_done)
    moreover have "?n = l" using False by simp
    ultimately show ?thesis using "1.prems" by (simp add: intervalsFrom_step [of c])
  qed
qed

lemma loopThroughBlocks_recordCall:
  "0 < batchSizeOf d \<Longrightarrow>
   loopThroughBlocks firstBlock lastBlock recordCall d [] =
     Some (intervalsFrom (batchSizeOf d) lastBlock firstBlock, Inr lastBlock)"
  by (simp add: loopThroughBlocks_def blocksLoop_recordCall)

text \<open>
  A negative batch size moves \<open>nextBlock\<close> away from \<open>lastBlock\<close>: the loop never
  returns. This is why the results below ask for a positive batch size.
\<close>

lemma blocksLoop_negative_batch:
  assumes "blocksLoop cb bs l c n s = Some y"
  shows "\<not> (cb = recordCall \<and> bs < 0 \<and> c = n \<and> n < l)"
proof (rule blocksLoop.raw_induct
    [where P = "\<lambda>cb bs l c n s y. \<not> (cb = recordCall \<and> bs < 0 \<and> c = n \<and> n < l)", OF _ assms])
  fix f cb' bs' l' c' n' and s' :: "(int \<times> int) list" and y'
  assume IH: "\<And>cb bs l c n s y. f cb bs l c n s = Some y \<Longrightarrow>
                \<not> (cb = recordCall \<and> bs < 0 \<and> c = n \<and> n < l)"
    and hyp: "(if n' < l'
       then let nextBlock1 = c' + bs';
                nextBlock2 = if l' \<le> nextBlock1 then l' else nextBlock1
            in case cb' c' nextBlock2 s' of (s', Inl e) \<Rightarrow> Some (s', Inl e)
               | (s', Inr u) \<Rightarrow> f cb' bs' l' nextBlock2 nextBlock2 s'
       else Some (s', Inr ())) = Some y'"
  show "\<not> (cb' = recordCall \<and> bs' < 0 \<and> c' = n' \<and> n' < l')"
  proof
    assume a: "cb' = recordCall \<and> bs' < 0 \<and> c' = n' \<and> n' < l'"
    then have step:
      "f recordCall bs' l' (c' + bs') (c' + bs') (s' @ [(c', c' + bs')]) = Some y'"
      using hyp by (simp add: Let_def recordCall_def)
    from IH [OF step] a show False by simp
  qed
qed

lemma loopThroughBlocks_negative_batch_diverges:
  "loopThroughBlocks 0 10 recordCall (Some (- 1)) [] = None"
proof (cases "blocksLoop recordCall (- 1) 10 0 0 ([] :: (int \<times> int) list)")
  case None
  then show ?thesis by (simp add: loopThroughBlocks_def batchSizeOf_def)
next
  case (Some y)
  from blocksLoop_negative_batch [OF Some] show ?thesis by simp
qed

text \<open>
  C1. As stated (consecutive intervals are non-overlapping closed intervals of at most
  \<open>batchSize\<close> blocks) the claim fails: with \<open>firstBlock = 0\<close>, \<open>lastBlock = 10\<close> and
  \<open>batchSize = 5\<close> the callback gets \<open>(0, 5)\<close> and \<open>(5, 10)\<close>; the closed intervals
  \<open>[0, 5]\<close> and \<open>[5, 10]\<close> share block 5, and \<open>[0, 5]\<close> holds 6 blocks.
\<close>

theorem loopThroughBlocks_overlap_counterexample:
  "loopThroughBlocks 0 10 recordCall (Some 5) [] = Some ([(0, 5), (5, 10)], Inr 10)
   \<and> {0..5::int} \<inter> {5..10} \<noteq> {}
   \<and> \<not> card {0..5::int} \<le> 5"
proof -
  have "blocksLoop recordCall 5 10 0 0 [] = Some ([(0, 5), (5, 10)], Inr ())"
    by (simp add: blocksLoop.simps recordCall_def)
  then have run: "loopThroughBlocks 0 10 recordCall (Some 5) [] = Some ([(0, 5), (5, 10)], Inr 10)"
    by (simp add: loopThroughBlocks_def batchSizeOf_def)
  have shared: "{0..5::int} \<inter> {5..10} \<noteq> {}"
  proof
    assume "{0..5::int} \<inter> {5..10} = {}"
    from equals0D [OF this, of 5] show False by simp
  qed
  have six: "\<not> card {0..5::int} \<le> 5" by simp
  show ?thesis by (intro conjI run shared six)
qed

text \<open>
  C1, amended. For a positive batch size (an absent or zero \<open>defaultBatchSize\<close> means
  4999) and \<open>firstBlock < lastBlock\<close>, the loop returns \<open>lastBlock\<close> after calling the
  callback on a non-empty chain of intervals, in this order: the first starts at
  \<open>firstBlock\<close>, each next one starts at the block where the previous one ended (so two
  consecutive closed intervals share exactly that boundary block, and an earlier interval
  ends no later than any later one starts), every interval \<open>(a, b)\<close> has \<open>a < b\<close> and
  \<open>b - a \<le> batchSize\<close>, the last one ends at \<open>lastBlock\<close>, and the closed intervals
  cover exactly \<open>[firstBlock, lastBlock]\<close>.
\<close>

theorem loopThroughBlocks_intervals:
  assumes "0 < batchSizeOf d" and "firstBlock < lastBlock"
  shows "\<exists>calls.
           loopThroughBlocks firstBlock lastBlock recordCall d [] = Some (calls, Inr lastBlock)
         \<and> calls \<noteq> []
         \<and> map fst calls = firstBlock # butlast (map snd calls)
         \<and> snd (last calls) = lastBlock
         \<and> sorted_wrt (\<lambda>p q. snd p \<le> fst q) calls
         \<and> (\<forall>(a, b) \<in> set calls. a < b \<and> b - a \<le> batchSizeOf d)
         \<and> (\<Union>(a, b) \<in> set calls. {a..b}) = {firstBlock..lastBlock}"
proof -
  let ?calls = "intervalsFrom (batchSizeOf d) lastBlock firstBlock"
  have run: "loopThroughBlocks firstBlock lastBlock recordCall d [] = Some (?calls, Inr lastBlock)"
    using assms(1) by (rule loopThroughBlocks_recordCall)
  have ne: "?calls \<noteq> []"
    using assms by (simp add: intervalsFrom_step [of firstBlock])
  have chain: "map fst ?calls = firstBlock # butlast (map snd ?calls)"
    and fin: "snd (last ?calls) = lastBlock"
    using intervalsFrom_chain [OF assms(2) assms(1)] by simp_all
  have srt: "sorted_wrt (\<lambda>p q. snd p \<le> fst q) ?calls"
    by (rule intervalsFrom_sorted)
  have "a < b \<and> b - a \<le> batchSizeOf d" if "(a, b) \<in> set ?calls" for a b
    using intervalsFrom_bounds [OF that] by simp
  then have bnd: "\<forall>(a, b) \<in> set ?calls. a < b \<and> b - a \<le> batchSizeOf d"
    by (simp add: split_beta)
  have cov: "(\<Union>(a, b) \<in> set ?calls. {a..b}) = {firstBlock..lastBlock}"
    by (rule intervalsFrom_union [OF assms(2) assms(1)])
  show ?thesis
    by (rule exI [of _ ?calls]) (intro conjI run ne chain fin srt bnd cov)
qed

theorem loopThroughBlocks_intervals_witness:
  "0 < batchSizeOf (Some 5) \<and> (0::int) < 10 \<and>
   (\<exists>calls.
       loopThroughBlocks 0 10 recordCall (Some 5) [] = Some (calls, Inr 10)
     \<and> calls \<noteq> []
     \<and> map fst calls = 0 # butlast (map snd calls)
     \<and> snd (last calls) = 10
     \<and> sorted_wrt (\<lambda>p q. snd p \<le> fst q) calls
     \<and> (\<forall>(a, b) \<in> set calls. a < b \<and> b - a \<le> batchSizeOf (Some 5))
     \<and> (\<Union>(a, b) \<in> set calls. {a..b}) = {0..10})"
proof -
  have h1: "0 < batchSizeOf (Some 5)" by (simp add: batchSizeOf_def)
  have h2: "(0::int) < 10" by simp
  show ?thesis
    by (intro conjI h1 h2 loopThroughBlocks_intervals [OF h1 h2])
qed

text \<open>
  C9. With \<open>firstBlock = 17000000\<close>, \<open>lastBlock = 17010000\<close> and a batch size of 4999
  (given, or by default) the callback is called three times, on \<open>(17000000, 17004999)\<close>,
  \<open>(17004999, 17009998)\<close> and \<open>(17009998, 17010000)\<close> in this order, and the loop
  returns 17010000; whenever \<open>firstBlock \<ge> lastBlock\<close> the callback is never called.
\<close>

theorem loopThroughBlocks_example:
  "loopThroughBlocks 17000000 17010000 recordCall (Some 4999) [] =
     Some ([(17000000, 17004999), (17004999, 17009998), (17009998, 17010000)], Inr 17010000)
   \<and> loopThroughBlocks 17000000 17010000 recordCall None [] =
     Some ([(17000000, 17004999), (17004999, 17009998), (17009998, 17010000)], Inr 17010000)
   \<and> (lastBlock \<le> firstBlock \<longrightarrow>
        loopThroughBlocks firstBlock lastBlock recordCall d [] = Some ([], Inr lastBlock))"
proof -
  have run: "blocksLoop recordCall 4999 17010000 17000000 17000000 [] =
     Some ([(17000000, 17004999), (17004999, 17009998), (17009998, 17010000)], Inr ())"
    by (simp add: blocksLoop.simps recordCall_def)
  have given: "loopThroughBlocks 17000000 17010000 recordCall (Some 4999) [] =
     Some ([(17000000, 17004999), (17004999, 17009998), (17009998, 17010000)], Inr 17010000)"
    using run by (simp add: loopThroughBlocks_def batchSizeOf_def)
  have dflt: "loopThroughBlocks 17000000 17010000 recordCall None [] =
     Some ([(17000000, 17004999), (17004999, 17009998), (17009998, 17010000)], Inr 17010000)"
    using run by (simp add: loopThroughBlocks_def batchSizeOf_def)
  have none: "lastBlock \<le> firstBlock \<longrightarrow>
        loopThroughBlocks firstBlock lastBlock recordCall d [] = Some ([], Inr lastBlock)"
    by (simp add: loopThroughBlocks_def blocksLoop.simps)
  show ?thesis by (intro conjI given dflt none)
qed

theorem loopThroughBlocks_example_witness:
  "(3::int) \<le> 7 \<and> loopThroughBlocks 7 3 recordCall (Some 2) [] = Some ([], Inr 3)"
  using loopThroughBlocks_example [of 3 7 "Some 2"] by simp

section \<open>The store, the cursor and the seeders\<close>

subsection \<open>Termination of the block loop, chunks and the settings table\<close>

lemma blocksLoop_total_aux:
  "0 < bs \<Longrightarrow> nat (l - c) = k \<Longrightarrow> \<exists>r. blocksLoop cb bs l c c s = Some r"
proof (induction k arbitrary: c s rule: less_induct)
  case (less k)
  show ?case
  proof (cases "c < l")
    case False
    then show ?thesis by (subst blocksLoop.simps) simp
  next
    case True
    let ?n = "if l \<le> c + bs then l else c + bs"
    obtain s' r where cbr: "cb c ?n s = (s', r)" by (cases "cb c ?n s")
    show ?thesis
    proof (cases r)
      case (Inl err)
      then show ?thesis using True cbr by (subst blocksLoop.simps) (simp add: Let_def)
    next
      case (Inr u)
      have "nat (l - ?n) < k" using True less.prems by auto
      from less.IH [OF this less.prems(1) refl, of s']
      obtain r' where "blocksLoop cb bs l ?n ?n s' = Some r'" by blast
      then show ?thesis using True cbr Inr by (subst blocksLoop.simps) (simp add: Let_def)
    qed
  qed
qed















subsection \<open>Failures, the cursor and the decoded records\<close>

lemma pushLogs_length:
  "pushLogs bd logs (inc, dec) = (inc', dec') \<Longrightarrow>
   length inc' = length inc + length logs \<and> length dec' = length dec + length logs"
  by (induction logs arbitrary: inc dec) auto

lemma decodePodLogs_length:
  "decodePodLogs e logs podList = (podList', Inr u) \<Longrightarrow>
   length podList' = length podList + length logs"
  by (induction logs arbitrary: podList) (auto split: sum.splits)

lemma seedLogsBatch_returns: "snd (seedLogsBatch e bd f t s) = Inr ()"
  by (simp add: seedLogsBatch_def split: prod.splits)


lemma blocksLoop_never_throws:
  assumes "blocksLoop cb bs l c n s = Some y"
  shows "(\<forall>a b x. snd (cb a b x) = Inr ()) \<longrightarrow> snd y = Inr ()"
proof (rule blocksLoop.raw_induct
    [where P = "\<lambda>cb bs l c n s y. (\<forall>a b x. snd (cb a b x) = Inr ()) \<longrightarrow> snd y = Inr ()",
     OF _ assms])
  fix f cb' bs' l' c' n' s' y'
  assume IH: "\<And>cb bs l c n s y. f cb bs l c n s = Some y \<Longrightarrow>
                (\<forall>a b x. snd (cb a b x) = Inr ()) \<longrightarrow> snd y = Inr ()"
    and hyp: "(if n' < l'
       then let nextBlock1 = c' + bs';
                nextBlock2 = if l' \<le> nextBlock1 then l' else nextBlock1
            in case cb' c' nextBlock2 s' of (s', Inl e) \<Rightarrow> Some (s', Inl e)
               | (s', Inr u) \<Rightarrow> f cb' bs' l' nextBlock2 nextBlock2 s'
       else Some (s', Inr ())) = Some y'"
  show "(\<forall>a b x. snd (cb' a b x) = Inr ()) \<longrightarrow> snd y' = Inr ()"
  proof
    assume ok: "\<forall>a b x. snd (cb' a b x) = Inr ()"
    show "snd y' = Inr ()"
    proof (cases "n' < l'")
      case False
      then show ?thesis using hyp by auto
    next
      case True
      let ?n = "if l' \<le> c' + bs' then l' else c' + bs'"
      obtain s1 r1 where cb: "cb' c' ?n s' = (s1, r1)" by (cases "cb' c' ?n s'")
      then have "r1 = Inr ()" using ok by (metis snd_conv)
      then have "f cb' bs' l' ?n ?n s1 = Some y'"
        using hyp True cb by (simp add: Let_def)
      from IH [OF this] ok show ?thesis by simp
    qed
  qed
qed

lemma seedLogsOperatorShares_never_signals:
  assumes "ifTruthy toBlock Inr (getBlockNumber e) = Inr lastBlock"
  shows "\<exists>s'. seedLogsOperatorShares e toBlock fromBlock st = Some (s', Inr ())"
proof -
  let ?first = "ifTruthy fromBlock (\<lambda>b. b) (fetchLastSyncBlock e st blockSyncKeyLogs)"
  let ?cb = "seedLogsBatch e (getBlockDataFromDb st ?first lastBlock)"
  have pos: "0 < batchSizeOf None" by (simp add: batchSizeOf_def)
  from blocksLoop_total_aux [OF pos refl, where cb = ?cb and l = lastBlock and c = ?first
                               and s = "initialSeedState st"]
  obtain y where y: "blocksLoop ?cb (batchSizeOf None) lastBlock ?first ?first
                       (initialSeedState st) = Some y" by blast
  have "\<forall>a b x. snd (?cb a b x) = Inr ()" by (simp add: seedLogsBatch_returns)
  with blocksLoop_never_throws [OF y] have "snd y = Inr ()" by blast
  then obtain s' where "y = (s', Inr ())" by (cases y) auto
  then show ?thesis
    using y assms by (simp add: seedLogsOperatorShares_def loopThroughBlocks_def Let_def)
qed





text \<open>
  C5. The claim is what the cursor discipline needs, and \<open>seedPods\<close> keeps it, but the
  empty \<open>catch\<close> of \<open>seedLogsOperatorShares\<close> breaks it. In a run over blocks 1 to 6000
  whose chain read fails in the batch \<open>(1, 5000)\<close>, the run returns normally and the
  cursor is 6000: the failed batch is neither signalled nor read again.
\<close>

theorem seedLogsOperatorShares_swallows_error:
  "getLogs envRpcFails 1 5000 = Inl RpcError
   \<and> seedLogsOperatorShares envRpcFails (Some 6000) (Some 1) emptyStore =
     Some (\<lparr> dbTransactions =
               [OperatorSharesIncreasedCreateMany [], OperatorSharesDecreasedCreateMany [],
                SettingsUpsert blockSyncKeyLogs 6000],
             logsOperatorSharesIncreased = [], logsOperatorSharesDecreased = [],
             db = emptyStore
                    \<lparr> settings := (settings emptyStore)(blockSyncKeyLogs \<mapsto> 6000),
                      tableOps := [OperatorSharesIncreasedCreateMany [],
                                   OperatorSharesDecreasedCreateMany []],
                      txCount := 1 \<rparr> \<rparr>,
           Inr ())"
proof -
  have rpc: "getLogs envRpcFails 1 5000 = Inl RpcError"
    by (simp add: envRpcFails_def exampleEnv_def)
  have loop: "blocksLoop (seedLogsBatch envRpcFails (getBlockDataFromDb emptyStore 1 6000))
      4999 6000 1 1 (initialSeedState emptyStore) =
     Some (\<lparr> dbTransactions =
               [OperatorSharesIncreasedCreateMany [], OperatorSharesDecreasedCreateMany [],
                SettingsUpsert blockSyncKeyLogs 6000],
             logsOperatorSharesIncreased = [], logsOperatorSharesDecreased = [],
             db = emptyStore
                    \<lparr> settings := (settings emptyStore)(blockSyncKeyLogs \<mapsto> 6000),
                      tableOps := [OperatorSharesIncreasedCreateMany [],
                                   OperatorSharesDecreasedCreateMany []],
                      txCount := 1 \<rparr> \<rparr>,
           Inr ())"
    by (simp add: blocksLoop.simps seedLogsBatch_def seedLogsTry_def envRpcFails_def
          bulkUpdateDbTransactions_def transaction_def exampleEnv_def emptyStore_def
          chunkArray.simps initialSeedState_def Let_def)
  have run: "seedLogsOperatorShares envRpcFails (Some 6000) (Some 1) emptyStore =
     Some (\<lparr> dbTransactions =
               [OperatorSharesIncreasedCreateMany [], OperatorSharesDecreasedCreateMany [],
                SettingsUpsert blockSyncKeyLogs 6000],
             logsOperatorSharesIncreased = [], logsOperatorSharesDecreased = [],
             db = emptyStore
                    \<lparr> settings := (settings emptyStore)(blockSyncKeyLogs \<mapsto> 6000),
                      tableOps := [OperatorSharesIncreasedCreateMany [],
                                   OperatorSharesDecreasedCreateMany []],
                      txCount := 1 \<rparr> \<rparr>,
           Inr ())"
    using loop
    by (simp add: seedLogsOperatorShares_def loopThroughBlocks_def batchSizeOf_def
          ifTruthy_def Let_def)
  show ?thesis by (intro conjI rpc run)
qed

text \<open>
  C6. \<open>seedPods\<close> makes one record for each log (\<open>decodePodLogs_length\<close>), but
  \<open>seedLogsOperatorShares\<close> pushes every log to both of its lists: a run that reads the
  single log \<open>exampleLog\<close>, an \<open>OperatorSharesIncreased\<close> event, ends with one record in
  the list of increases and one in the list of decreases.
\<close>

theorem seedLogsOperatorShares_pushes_log_twice:
  "getLogs (envOneLog exampleLog) 1 10 = Inr [exampleLog]
   \<and> log_eventName exampleLog = ''OperatorSharesIncreased''
   \<and> map_option (\<lambda>(s, r). (logsOperatorSharesIncreased s, logsOperatorSharesDecreased s))
        (seedLogsOperatorShares (envOneLog exampleLog) (Some 10) (Some 1) emptyStore) =
      Some ([sharesLogOf Map.empty exampleLog], [sharesLogOf Map.empty exampleLog])"
proof -
  have one: "getLogs (envOneLog exampleLog) 1 10 = Inr [exampleLog]"
    by (simp add: envOneLog_def exampleEnv_def)
  have name: "log_eventName exampleLog = ''OperatorSharesIncreased''"
    by (simp add: exampleLog_def)
  have bd: "getBlockDataFromDb emptyStore 1 10 = Map.empty"
    by (rule ext) (simp add: getBlockDataFromDb_def emptyStore_def)
  have loop: "map_option (\<lambda>(s, r). (logsOperatorSharesIncreased s, logsOperatorSharesDecreased s))
        (blocksLoop (seedLogsBatch (envOneLog exampleLog) Map.empty)
           4999 10 1 1 (initialSeedState emptyStore)) =
      Some ([sharesLogOf Map.empty exampleLog], [sharesLogOf Map.empty exampleLog])"
    by (simp add: blocksLoop.simps seedLogsBatch_def seedLogsTry_def envOneLog_def
          bulkUpdateDbTransactions_def transaction_def exampleEnv_def
          chunkArray.simps initialSeedState_def Let_def split: prod.splits)
  have run: "map_option (\<lambda>(s, r). (logsOperatorSharesIncreased s, logsOperatorSharesDecreased s))
        (seedLogsOperatorShares (envOneLog exampleLog) (Some 10) (Some 1) emptyStore) =
      Some ([sharesLogOf Map.empty exampleLog], [sharesLogOf Map.empty exampleLog])"
    using loop
    by (auto simp add: seedLogsOperatorShares_def loopThroughBlocks_def batchSizeOf_def
          ifTruthy_def Let_def bd split: option.splits sum.splits prod.splits)
  show ?thesis by (intro conjI one name run)
qed

text \<open>
  C10. \<open>fetchLastSyncBlock\<close> returns the genesis block of the network both when the
  settings table has no row for the key and when the row holds 0; a cursor saved as
  block 0 reads back as the genesis block.
\<close>

theorem fetchLastSyncBlock_zero_is_absent:
  "fetchLastSyncBlock e (st\<lparr>settings := (settings st)(key := None)\<rparr>) key = baseBlock (network e)
   \<and> fetchLastSyncBlock e (st\<lparr>settings := (settings st)(key \<mapsto> 0)\<rparr>) key = baseBlock (network e)
   \<and> fetchLastSyncBlock e (applyOp (SettingsUpsert key 0) st) key = baseBlock (network e)
   \<and> baseBlock (network e) \<in> {17000000, 1159609}"
  by (simp add: fetchLastSyncBlock_def baseBlock_def split: option.splits)

lemma fetchLastSyncBlock_stored:
  "settings st key = Some v \<Longrightarrow> v \<noteq> 0 \<Longrightarrow> fetchLastSyncBlock e st key = v"
  by (simp add: fetchLastSyncBlock_def)

section \<open>The metric aggregator\<close>

subsection \<open>Bucket walks\<close>

lemma getOffsetInMs_pos: "0 < getOffsetInMs frequency"
  by (simp add: getOffsetInMs_def)

lemma bucket_count_step:
  fixes c e off :: int
  assumes "0 < off" and "c \<le> e"
  shows "nat ((e - c) div off) + 1 =
         Suc (if c + off \<le> e then nat ((e - (c + off)) div off) + 1 else 0)"
proof (cases "c + off \<le> e")
  case True
  have "e - (c + off) + off = e - c" by simp
  then have "(e - c) div off = (e - (c + off)) div off + 1"
    using div_add_self2 [of off "e - (c + off)"] assms(1) by simp
  moreover have "0 \<le> (e - (c + off)) div off"
    using True assms(1) by (simp add: pos_imp_zdiv_nonneg_iff)
  ultimately show ?thesis using True by (simp add: nat_add_distrib)
next
  case False
  then have "(e - c) div off = 0" using assms by (simp add: div_pos_pos_trivial)
  then show ?thesis using False by simp
qed

lemma calculate_no_error:
  "isEth \<or> ep \<noteq> None \<Longrightarrow>
   \<exists>v'. calculateTvlForHistoricalRecord rows variant v isEth ep = Inr v'"
  by (auto simp: calculateTvlForHistoricalRecord_def)

lemma historicalTvlLoop_length:
  "isEth \<or> ep \<noteq> None \<Longrightarrow>
   \<exists>pts. historicalTvlLoop f variant isEth ep hourly e c v = Inr pts
        \<and> length pts = (if c \<le> e then nat ((e - c) div getOffsetInMs f) + 1 else 0)"
proof (induction f variant isEth ep hourly e c v rule: historicalTvlLoop.induct)
  case (1 f variant isEth ep hourly e c v)
  show ?case
  proof (cases "c \<le> e")
    case False
    then show ?thesis by (subst historicalTvlLoop.simps) simp
  next
    case True
    let ?next = "c + getOffsetInMs f"
    let ?rows = "filter (\<lambda>d. mr_timestamp d \<ge> c \<and> mr_timestamp d < ?next) hourly"
    from calculate_no_error [OF "1.prems"]
    obtain v' where calc: "calculateTvlForHistoricalRecord ?rows variant v isEth ep = Inr v'"
      by blast
    from "1.IH" [OF True refl refl calc "1.prems"]
    obtain rest where rest: "historicalTvlLoop f variant isEth ep hourly e ?next v' = Inr rest"
      and len: "length rest = (if ?next \<le> e then nat ((e - ?next) div getOffsetInMs f) + 1 else 0)"
      by blast
    have "historicalTvlLoop f variant isEth ep hourly e c v =
            Inr (\<lparr> htr_timestamp = c, htr_tvlEth = v' \<rparr> # rest)"
      using True calc rest by (subst historicalTvlLoop.simps) (simp add: Let_def)
    moreover have "length (\<lparr> htr_timestamp = c, htr_tvlEth = v' \<rparr> # rest) =
                     nat ((e - c) div getOffsetInMs f) + 1"
      using len bucket_count_step [OF getOffsetInMs_pos True, of f] by simp
    ultimately show ?thesis using True by simp
  qed
qed

lemma historicalTvlLoop_unfold:
  assumes "historicalTvlLoop f variant isEth ep hourly e c v = Inr pts" and "pts \<noteq> []"
  shows "\<exists>v' rest.
           c \<le> e
         \<and> calculateTvlForHistoricalRecord
               (filter (\<lambda>d. mr_timestamp d \<ge> c \<and> mr_timestamp d < c + getOffsetInMs f) hourly)
               variant v isEth ep = Inr v'
         \<and> historicalTvlLoop f variant isEth ep hourly e (c + getOffsetInMs f) v' = Inr rest
         \<and> pts = \<lparr> htr_timestamp = c, htr_tvlEth = v' \<rparr> # rest"
  using assms
  by (subst (asm) historicalTvlLoop.simps)
     (auto simp: Let_def split: if_splits sum.splits)

lemma calculate_cumulative:
  "calculateTvlForHistoricalRecord rows ''cumulative'' v isEth ep = Inr v' \<Longrightarrow>
   v' = (if rows \<noteq> []
         then (if isEth then mr_tvlEth (last rows)
               else mr_tvl (last rows) * priceOf ep (mr_strategyAddress (last rows)))
         else v)"
  by (auto simp: calculateTvlForHistoricalRecord_def split: if_splits)

lemma historicalTvlLoop_cumulative:
  assumes "historicalTvlLoop f variant isEth ep hourly e c v = Inr pts"
    and "variant = ''cumulative''" and "i < length pts"
  shows "htr_timestamp (pts ! i) = c + int i * getOffsetInMs f
       \<and> htr_tvlEth (pts ! i) =
           (let rows = filter (\<lambda>d. c + int i * getOffsetInMs f \<le> mr_timestamp d
                                   \<and> mr_timestamp d < c + (int i + 1) * getOffsetInMs f) hourly
            in if rows \<noteq> []
               then (if isEth then mr_tvlEth (last rows)
                     else mr_tvl (last rows) * priceOf ep (mr_strategyAddress (last rows)))
               else if i = 0 then v else htr_tvlEth (pts ! (i - 1)))"
  using assms
proof (induction f variant isEth ep hourly e c v arbitrary: pts i rule: historicalTvlLoop.induct)
  case (1 f variant isEth ep hourly e c v)
  let ?off = "getOffsetInMs f"
  let ?rows = "filter (\<lambda>d. mr_timestamp d \<ge> c \<and> mr_timestamp d < c + ?off) hourly"
  have ne: "pts \<noteq> []" using "1.prems"(3) by auto
  from historicalTvlLoop_unfold [OF "1.prems"(1) ne]
  obtain v' rest where le: "c \<le> e"
    and calc: "calculateTvlForHistoricalRecord ?rows variant v isEth ep = Inr v'"
    and rest: "historicalTvlLoop f variant isEth ep hourly e (c + ?off) v' = Inr rest"
    and pts: "pts = \<lparr> htr_timestamp = c, htr_tvlEth = v' \<rparr> # rest"
    by blast
  have v': "v' = (if ?rows \<noteq> []
         then (if isEth then mr_tvlEth (last ?rows)
               else mr_tvl (last ?rows) * priceOf ep (mr_strategyAddress (last ?rows)))
         else v)"
    using calc "1.prems"(2) calculate_cumulative by blast
  show ?case
  proof (cases i)
    case 0
    then show ?thesis using pts v' by (simp add: Let_def)
  next
    case (Suc j)
    then have j: "j < length rest" using "1.prems"(3) pts by simp
    have shift1: "c + ?off + int j * ?off = c + int i * ?off"
      using Suc by (simp add: algebra_simps)
    have shift2: "c + ?off + (int j + 1) * ?off = c + (int i + 1) * ?off"
      using Suc by (simp add: algebra_simps)
    have prev: "(if j = 0 then v' else htr_tvlEth (rest ! (j - 1))) = htr_tvlEth (pts ! (i - 1))"
      using Suc pts by (cases j) simp_all
    from "1.IH" [OF le refl refl calc rest "1.prems"(2) j]
    show ?thesis
      unfolding shift1 shift2 using Suc pts prev by (simp add: Let_def)
  qed
qed

lemma historicalTvlLoop_no_rows:
  assumes run: "historicalTvlLoop f variant isEth ep [] e c v = Inr pts"
    and cum: "variant = ''cumulative''"
  shows "\<forall>p \<in> set pts. htr_tvlEth p = v"
proof -
  have nth: "i < length pts \<Longrightarrow> htr_tvlEth (pts ! i) = v" for i
  proof (induction i)
    case 0
    from historicalTvlLoop_cumulative [OF run cum 0] show ?case by simp
  next
    case (Suc j)
    then have "htr_tvlEth (pts ! j) = v" by simp
    with historicalTvlLoop_cumulative [OF run cum Suc.prems] show ?case by simp
  qed
  show ?thesis
  proof
    fix p assume "p \<in> set pts"
    then obtain i where "i < length pts" and "pts ! i = p" by (auto simp: in_set_conv_nth)
    with nth show "htr_tvlEth p = v" by auto
  qed
qed




lemma avsTimeInterval_pos: "avsTimeInterval frequency = Some timeInterval \<Longrightarrow> 0 < timeInterval"
  by (auto simp: avsTimeInterval_def split: option.splits if_splits)

lemma avsTimeInterval_number:
  "frequency \<notin> set objectPrototypeMembers \<Longrightarrow> \<exists>timeInterval. avsTimeInterval frequency = Some timeInterval"
  by (auto simp: avsTimeInterval_def split: option.splits)

lemma avsAggregateLoop_length:
  "avsTimeInterval f = Some timeInterval \<Longrightarrow>
   length (avsAggregateLoop f variant hourly e c previous) =
     (if c \<le> e then nat ((e - c) div timeInterval) + 1 else 0)"
proof (induction f variant hourly e c previous rule: avsAggregateLoop.induct)
  case (1 f variant hourly e c previous)
  show ?case
  proof (cases "c \<le> e")
    case False
    then show ?thesis by (subst avsAggregateLoop.simps) simp
  next
    case True
    show ?thesis
      using True "1.IH" [OF True "1.prems" refl refl refl "1.prems"] "1.prems"
        bucket_count_step [OF avsTimeInterval_pos [OF "1.prems"] True]
      by (subst avsAggregateLoop.simps) (simp add: Let_def)
  qed
qed

lemma avsAggregateLoop_not_a_number:
  "avsTimeInterval f = None \<Longrightarrow> c \<le> e \<Longrightarrow>
   length (avsAggregateLoop f variant hourly e c previous) = 1"
  by (subst avsAggregateLoop.simps) (simp add: Let_def)

lemma ceiling_floor_div:
  fixes a off :: int
  assumes "0 < off"
  shows "\<lceil>real_of_int a / real_of_int off\<rceil> = a div off + (if off dvd a then 0 else 1)"
  using assms
  by (simp add: ceiling_divide_eq_div zdiv_zminus1_eq_if dvd_eq_mod_eq_0)

subsection \<open>Cumulative walks\<close>

lemma getInitialTvlCumulative_value:
  assumes "isEth \<or> ep \<noteq> None" and "prismaModel mdb modelName = Some model"
  shows "getInitialTvlCumulative mdb s hourly isEth modelName ep =
     Inr (if hourly \<noteq> [] \<and> mr_timestamp (hd hourly) = s
          then (if isEth then mr_tvlEth (hd hourly)
                else mr_tvl (hd hourly) * priceOf ep (mr_strategyAddress (hd hourly)))
          else (case findFirstBefore model s of
                  None \<Rightarrow> 0
                | Some r \<Rightarrow> if isEth then mr_tvlEth r
                            else mr_tvl r * priceOf ep beaconAddress))"
  using assms by (auto simp: getInitialTvlCumulative_def split: option.splits)

lemma getInitialTvlCumulative_eth:
  assumes "prismaModel mdb modelName = Some model"
  shows "getInitialTvlCumulative mdb s hourly True modelName ep =
     Inr (if hourly \<noteq> [] \<and> mr_timestamp (hd hourly) = s then mr_tvlEth (hd hourly)
          else (case findFirstBefore model s of None \<Rightarrow> 0 | Some r \<Rightarrow> mr_tvlEth r))"
  using assms by (auto simp: getInitialTvlCumulative_def split: option.splits)

lemma getInitialTvlCumulative_strategy:
  assumes "prismaModel mdb modelName = Some model"
  shows "getInitialTvlCumulative mdb s hourly False modelName (Some prices) =
     Inr (if hourly \<noteq> [] \<and> mr_timestamp (hd hourly) = s
          then mr_tvl (hd hourly) * priceOf (Some prices) (mr_strategyAddress (hd hourly))
          else (case findFirstBefore model s of
                  None \<Rightarrow> 0 | Some r \<Rightarrow> mr_tvl r * priceOf (Some prices) beaconAddress))"
  using assms by (auto simp: getInitialTvlCumulative_def split: option.splits)

lemma getInitialTvlCumulative_first_row:
  assumes "hourly \<noteq> []" and "mr_timestamp (hd hourly) = s"
  shows "getInitialTvlCumulative mdb s hourly True modelName ep = Inr (mr_tvlEth (hd hourly))"
  using assms by (simp add: getInitialTvlCumulative_def)

lemma getInitialTvlCumulative_no_delegate:
  assumes "prismaModel mdb modelName = None"
    and "\<not> (hourly \<noteq> [] \<and> mr_timestamp (hd hourly) = s)"
  shows "getInitialTvlCumulative mdb s hourly True modelName None = Inl TypeError"
  using assms by (auto simp: getInitialTvlCumulative_def)

lemma prismaModel_delegates:
  "prismaModel mdb ''metricEigenPodsHourly'' = Some (metricEigenPodsHourly mdb)"
  "prismaModel mdb ''metricStrategyHourly'' = Some (metricStrategyHourly mdb)"
  "prismaModel mdb ''metricDepositHourly'' = Some (metricDepositHourly mdb)"
  "prismaModel mdb ''metricWithdrawalHourly'' = Some (metricWithdrawalHourly mdb)"
  "prismaModel mdb ''withdrawalMetricHourly'' = None"
  "prismaModel mdb ''depositMetricHourly'' = None"
  by (simp_all add: prismaModel_def)

text \<open>
  C3. As stated (a bucket with rows takes the absolute value field of its last row) the
  claim fails for the restaking walk, which converts to ETH: the only row of the bucket
  has \<open>tvl = 100\<close>, and the bucket's value is 200 with an ETH price of 2 for the row's
  strategy and 0 without a price.
\<close>

theorem cumulative_strategy_counterexample:
  "map mr_tvl (findManyStrategyInWindow (metricStrategyHourly strategyDb) None True
                 (resetTime 0) (resetTime 0)) = [100]
   \<and> doGetHistoricalTvlRestaking strategyDb examplePrices 0 0 ''1h'' ''cumulative'' None True =
       Inr [\<lparr> htr_timestamp = 0, htr_tvlEth = 200 \<rparr>]
   \<and> doGetHistoricalTvlRestaking strategyDb Map.empty 0 0 ''1h'' ''cumulative'' None True =
       Inr [\<lparr> htr_timestamp = 0, htr_tvlEth = 0 \<rparr>]"
proof -
  have rows: "map mr_tvl (findManyStrategyInWindow (metricStrategyHourly strategyDb) None True
                 (resetTime 0) (resetTime 0)) = [100]"
    by (simp add: findManyStrategyInWindow_def findManyInWindow_def strategyDb_def
          strategyRow_def resetTime_def)
  have priced: "doGetHistoricalTvlRestaking strategyDb examplePrices 0 0 ''1h'' ''cumulative''
                  None True = Inr [\<lparr> htr_timestamp = 0, htr_tvlEth = 200 \<rparr>]"
    by (simp add: doGetHistoricalTvlRestaking_def findManyStrategyInWindow_def
          findManyInWindow_def strategyDb_def strategyRow_def resetTime_def
          getInitialTvlCumulative_def priceOf_def examplePrices_def Let_def
          historicalTvlLoop.simps getOffsetInMs_def calculateTvlForHistoricalRecord_def)
  have unpriced: "doGetHistoricalTvlRestaking strategyDb Map.empty 0 0 ''1h'' ''cumulative''
                  None True = Inr [\<lparr> htr_timestamp = 0, htr_tvlEth = 0 \<rparr>]"
    by (simp add: doGetHistoricalTvlRestaking_def findManyStrategyInWindow_def
          findManyInWindow_def strategyDb_def strategyRow_def resetTime_def
          getInitialTvlCumulative_def priceOf_def Let_def
          historicalTvlLoop.simps getOffsetInMs_def calculateTvlForHistoricalRecord_def)
  show ?thesis by (intro conjI rows priced unpriced)
qed

text \<open>
  C3, amended. Every cumulative TVL walk is the loop \<open>historicalTvlLoop\<close> run from a
  seed. The loop never fails; its point for bucket \<open>i\<close> has the timestamp
  \<open>start + i * offset\<close>; a bucket \<open>[start + i * offset, start + (i + 1) * offset)\<close> that
  holds rows of the window takes its value from the last of them, the \<open>tvlEth\<close> field in
  the ETH-denominated walks and the \<open>tvl\<close> field times the ETH price of the row's
  strategy (0 without a price) in the restaking walk; an empty bucket carries the value
  of the previous bucket forward, the seed for the first bucket; with no rows in the
  window every point has the value of the seed. The seed of the beacon walk and of the
  restaking walk is the value of the first row of the window when that row is at
  \<open>startAt\<close>, and otherwise the value of the latest row before the window (in the
  restaking walk its \<open>tvl\<close> times the price of the beacon address), 0 when there is
  none; the seed of the withdrawal and deposit walk is the \<open>tvlEth\<close> of the first row of
  the window when that row is at \<open>startAt\<close>.
\<close>

theorem cumulative_walks:
  "(isEthDenominated \<or> ethPrices \<noteq> None \<longrightarrow>
      (\<exists>pts. historicalTvlLoop frequency ''cumulative'' isEthDenominated ethPrices hourlyData
                endTimestamp currentTimestamp seed = Inr pts
         \<and> (\<forall>i < length pts.
               htr_timestamp (pts ! i) = currentTimestamp + int i * getOffsetInMs frequency
             \<and> htr_tvlEth (pts ! i) =
                 (let rows = filter (\<lambda>d. currentTimestamp + int i * getOffsetInMs frequency
                                            \<le> mr_timestamp d
                                        \<and> mr_timestamp d
                                            < currentTimestamp
                                                + (int i + 1) * getOffsetInMs frequency)
                               hourlyData
                  in if rows \<noteq> []
                     then (if isEthDenominated then mr_tvlEth (last rows)
                           else mr_tvl (last rows)
                                  * priceOf ethPrices (mr_strategyAddress (last rows)))
                     else if i = 0 then seed else htr_tvlEth (pts ! (i - 1))))
         \<and> (hourlyData = [] \<longrightarrow> (\<forall>p \<in> set pts. htr_tvlEth p = seed))))
   \<and> (let s = resetTime startAt; e = resetTime endAt;
           hourly = findManyInWindow (metricEigenPodsHourly mdb) s e
       in doGetHistoricalTvlBeacon mdb startAt endAt frequency ''cumulative'' =
            historicalTvlLoop frequency ''cumulative'' True None hourly e s
              (if hourly \<noteq> [] \<and> mr_timestamp (hd hourly) = s then mr_tvlEth (hd hourly)
               else (case findFirstBefore (metricEigenPodsHourly mdb) s of
                       None \<Rightarrow> 0 | Some r \<Rightarrow> mr_tvlEth r)))
   \<and> (let s = resetTime startAt; e = resetTime endAt;
           hourly = findManyStrategyInWindow (metricStrategyHourly mdb) address
                      includeBeaconInTvl s e
       in doGetHistoricalTvlRestaking mdb prices startAt endAt frequency ''cumulative''
            address includeBeaconInTvl =
            historicalTvlLoop frequency ''cumulative'' False (Some prices) hourly e s
              (if hourly \<noteq> [] \<and> mr_timestamp (hd hourly) = s
               then mr_tvl (hd hourly) * priceOf (Some prices) (mr_strategyAddress (hd hourly))
               else (case findFirstBefore (metricStrategyHourly mdb) s of
                       None \<Rightarrow> 0
                     | Some r \<Rightarrow> mr_tvl r * priceOf (Some prices) beaconAddress)))
   \<and> (let s = resetTime startAt; e = resetTime endAt;
           hourly = findManyInWindow (metricDepositHourly mdb) s e
       in hourly \<noteq> [] \<and> mr_timestamp (hd hourly) = s \<longrightarrow>
            doGetHistoricalTvlWithdrawalDeposit mdb modelName startAt endAt frequency
              ''cumulative'' =
              historicalTvlLoop frequency ''cumulative'' True None hourly e s
                (mr_tvlEth (hd hourly)))"
proof (intro conjI impI)
  assume ok: "isEthDenominated \<or> ethPrices \<noteq> None"
  obtain pts where loop:
    "historicalTvlLoop frequency ''cumulative'' isEthDenominated ethPrices hourlyData
       endTimestamp currentTimestamp seed = Inr pts"
    using historicalTvlLoop_length [OF ok] by blast
  have walk: "\<forall>i < length pts.
               htr_timestamp (pts ! i) = currentTimestamp + int i * getOffsetInMs frequency
             \<and> htr_tvlEth (pts ! i) =
                 (let rows = filter (\<lambda>d. currentTimestamp + int i * getOffsetInMs frequency
                                            \<le> mr_timestamp d
                                        \<and> mr_timestamp d
                                            < currentTimestamp
                                                + (int i + 1) * getOffsetInMs frequency)
                               hourlyData
                  in if rows \<noteq> []
                     then (if isEthDenominated then mr_tvlEth (last rows)
                           else mr_tvl (last rows)
                                  * priceOf ethPrices (mr_strategyAddress (last rows)))
                     else if i = 0 then seed else htr_tvlEth (pts ! (i - 1)))"
    using historicalTvlLoop_cumulative [OF loop refl] by blast
  have empty: "hourlyData = [] \<longrightarrow> (\<forall>p \<in> set pts. htr_tvlEth p = seed)"
  proof
    assume "hourlyData = []"
    with loop have "historicalTvlLoop frequency ''cumulative'' isEthDenominated ethPrices []
                      endTimestamp currentTimestamp seed = Inr pts" by simp
    from historicalTvlLoop_no_rows [OF this refl]
    show "\<forall>p \<in> set pts. htr_tvlEth p = seed" .
  qed
  show "\<exists>pts. historicalTvlLoop frequency ''cumulative'' isEthDenominated ethPrices hourlyData
                endTimestamp currentTimestamp seed = Inr pts
         \<and> (\<forall>i < length pts.
               htr_timestamp (pts ! i) = currentTimestamp + int i * getOffsetInMs frequency
             \<and> htr_tvlEth (pts ! i) =
                 (let rows = filter (\<lambda>d. currentTimestamp + int i * getOffsetInMs frequency
                                            \<le> mr_timestamp d
                                        \<and> mr_timestamp d
                                            < currentTimestamp
                                                + (int i + 1) * getOffsetInMs frequency)
                               hourlyData
                  in if rows \<noteq> []
                     then (if isEthDenominated then mr_tvlEth (last rows)
                           else mr_tvl (last rows)
                                  * priceOf ethPrices (mr_strategyAddress (last rows)))
                     else if i = 0 then seed else htr_tvlEth (pts ! (i - 1))))
         \<and> (hourlyData = [] \<longrightarrow> (\<forall>p \<in> set pts. htr_tvlEth p = seed))"
    by (rule exI [of _ pts]) (intro conjI loop walk empty)
next
  show "let s = resetTime startAt; e = resetTime endAt;
           hourly = findManyInWindow (metricEigenPodsHourly mdb) s e
       in doGetHistoricalTvlBeacon mdb startAt endAt frequency ''cumulative'' =
            historicalTvlLoop frequency ''cumulative'' True None hourly e s
              (if hourly \<noteq> [] \<and> mr_timestamp (hd hourly) = s then mr_tvlEth (hd hourly)
               else (case findFirstBefore (metricEigenPodsHourly mdb) s of
                       None \<Rightarrow> 0 | Some r \<Rightarrow> mr_tvlEth r))"
    by (simp add: doGetHistoricalTvlBeacon_def Let_def
          getInitialTvlCumulative_eth [OF prismaModel_delegates(1)])
next
  show "let s = resetTime startAt; e = resetTime endAt;
           hourly = findManyStrategyInWindow (metricStrategyHourly mdb) address
                      includeBeaconInTvl s e
       in doGetHistoricalTvlRestaking mdb prices startAt endAt frequency ''cumulative''
            address includeBeaconInTvl =
            historicalTvlLoop frequency ''cumulative'' False (Some prices) hourly e s
              (if hourly \<noteq> [] \<and> mr_timestamp (hd hourly) = s
               then mr_tvl (hd hourly) * priceOf (Some prices) (mr_strategyAddress (hd hourly))
               else (case findFirstBefore (metricStrategyHourly mdb) s of
                       None \<Rightarrow> 0
                     | Some r \<Rightarrow> mr_tvl r * priceOf (Some prices) beaconAddress))"
    by (simp add: doGetHistoricalTvlRestaking_def Let_def
          getInitialTvlCumulative_strategy [OF prismaModel_delegates(2)])
next
  show "let s = resetTime startAt; e = resetTime endAt;
           hourly = findManyInWindow (metricDepositHourly mdb) s e
       in hourly \<noteq> [] \<and> mr_timestamp (hd hourly) = s \<longrightarrow>
            doGetHistoricalTvlWithdrawalDeposit mdb modelName startAt endAt frequency
              ''cumulative'' =
              historicalTvlLoop frequency ''cumulative'' True None hourly e s
                (mr_tvlEth (hd hourly))"
    by (simp add: doGetHistoricalTvlWithdrawalDeposit_def Let_def
          getInitialTvlCumulative_first_row)
qed

theorem cumulative_walks_witness:
  "doGetHistoricalTvlBeacon specExampleDb 0 14400000 ''1h'' ''cumulative'' =
     Inr [\<lparr> htr_timestamp = 0, htr_tvlEth = 100 \<rparr>,
          \<lparr> htr_timestamp = 3600000, htr_tvlEth = 100 \<rparr>,
          \<lparr> htr_timestamp = 7200000, htr_tvlEth = 100 \<rparr>,
          \<lparr> htr_timestamp = 10800000, htr_tvlEth = 150 \<rparr>,
          \<lparr> htr_timestamp = 14400000, htr_tvlEth = 150 \<rparr>]
   \<and> doGetHistoricalTvlRestaking specExampleDb examplePrices 0 14400000 ''1h'' ''cumulative''
        None True =
     Inr [\<lparr> htr_timestamp = 0, htr_tvlEth = 20 \<rparr>,
          \<lparr> htr_timestamp = 3600000, htr_tvlEth = 20 \<rparr>,
          \<lparr> htr_timestamp = 7200000, htr_tvlEth = 20 \<rparr>,
          \<lparr> htr_timestamp = 10800000, htr_tvlEth = 40 \<rparr>,
          \<lparr> htr_timestamp = 14400000, htr_tvlEth = 40 \<rparr>]
   \<and> findManyInWindow (metricEigenPodsHourly preWindowDb)
         (resetTime 3600000) (resetTime 7200000) = []
   \<and> doGetHistoricalTvlBeacon preWindowDb 3600000 7200000 ''1h'' ''cumulative'' =
     Inr [\<lparr> htr_timestamp = 3600000, htr_tvlEth = 42 \<rparr>,
          \<lparr> htr_timestamp = 7200000, htr_tvlEth = 42 \<rparr>]
   \<and> map mr_timestamp (findManyInWindow (metricDepositHourly depositDb)
                              (resetTime 3600000) (resetTime 7200000)) = [3600000]
   \<and> doGetHistoricalTvlWithdrawalDeposit depositDb ''depositMetricHourly'' 3600000 7200000
        ''1h'' ''cumulative'' =
     Inr [\<lparr> htr_timestamp = 3600000, htr_tvlEth = 7 \<rparr>,
          \<lparr> htr_timestamp = 7200000, htr_tvlEth = 7 \<rparr>]
   \<and> (\<exists>pts. historicalTvlLoop ''1h'' ''cumulative'' True None [] 7200000 3600000 42 = Inr pts
          \<and> length pts = 2 \<and> (\<forall>p \<in> set pts. htr_tvlEth p = 42))"
proof -
  note ev = resetTime_def findManyInWindow_def findManyStrategyInWindow_def findFirstBefore_def
    specExampleDb_def depositDb_def preWindowDb_def ethRow_def strategyRow_def examplePrices_def priceOf_def
    Let_def historicalTvlLoop.simps getOffsetInMs_def calculateTvlForHistoricalRecord_def
  have beacon: "doGetHistoricalTvlBeacon specExampleDb 0 14400000 ''1h'' ''cumulative'' =
     Inr [\<lparr> htr_timestamp = 0, htr_tvlEth = 100 \<rparr>,
          \<lparr> htr_timestamp = 3600000, htr_tvlEth = 100 \<rparr>,
          \<lparr> htr_timestamp = 7200000, htr_tvlEth = 100 \<rparr>,
          \<lparr> htr_timestamp = 10800000, htr_tvlEth = 150 \<rparr>,
          \<lparr> htr_timestamp = 14400000, htr_tvlEth = 150 \<rparr>]"
    using cumulative_walks [where mdb = specExampleDb and startAt = 0 and endAt = 14400000
                              and frequency = "''1h''", THEN conjunct2, THEN conjunct1]
    by (simp add: ev)
  have restaking: "doGetHistoricalTvlRestaking specExampleDb examplePrices 0 14400000 ''1h''
        ''cumulative'' None True =
     Inr [\<lparr> htr_timestamp = 0, htr_tvlEth = 20 \<rparr>,
          \<lparr> htr_timestamp = 3600000, htr_tvlEth = 20 \<rparr>,
          \<lparr> htr_timestamp = 7200000, htr_tvlEth = 20 \<rparr>,
          \<lparr> htr_timestamp = 10800000, htr_tvlEth = 40 \<rparr>,
          \<lparr> htr_timestamp = 14400000, htr_tvlEth = 40 \<rparr>]"
    using cumulative_walks [where mdb = specExampleDb and startAt = 0 and endAt = 14400000
                              and frequency = "''1h''" and prices = examplePrices
                              and address = None and includeBeaconInTvl = True,
                            THEN conjunct2, THEN conjunct2, THEN conjunct1]
    by (simp add: ev)
  have norows: "findManyInWindow (metricEigenPodsHourly preWindowDb)
         (resetTime 3600000) (resetTime 7200000) = []"
    by (simp add: ev)
  have before: "doGetHistoricalTvlBeacon preWindowDb 3600000 7200000 ''1h'' ''cumulative'' =
     Inr [\<lparr> htr_timestamp = 3600000, htr_tvlEth = 42 \<rparr>,
          \<lparr> htr_timestamp = 7200000, htr_tvlEth = 42 \<rparr>]"
    using cumulative_walks [where mdb = preWindowDb and startAt = 3600000 and endAt = 7200000
                              and frequency = "''1h''", THEN conjunct2, THEN conjunct1]
    by (simp add: ev)
  have delegate: "map mr_timestamp (findManyInWindow (metricDepositHourly depositDb)
                              (resetTime 3600000) (resetTime 7200000)) = [3600000]"
    by (simp add: ev)
  have deposit: "doGetHistoricalTvlWithdrawalDeposit depositDb ''depositMetricHourly''
        3600000 7200000 ''1h'' ''cumulative'' =
     Inr [\<lparr> htr_timestamp = 3600000, htr_tvlEth = 7 \<rparr>,
          \<lparr> htr_timestamp = 7200000, htr_tvlEth = 7 \<rparr>]"
    using cumulative_walks [where mdb = depositDb and startAt = 3600000 and endAt = 7200000
                              and frequency = "''1h''" and modelName = "''depositMetricHourly''",
                            THEN conjunct2, THEN conjunct2, THEN conjunct2]
    by (simp add: ev)
  have two: "historicalTvlLoop ''1h'' ''cumulative'' True None [] 7200000 3600000 42 =
     Inr [\<lparr> htr_timestamp = 3600000, htr_tvlEth = 42 \<rparr>,
          \<lparr> htr_timestamp = 7200000, htr_tvlEth = 42 \<rparr>]"
    by (simp add: ev)
  from cumulative_walks [where isEthDenominated = True and ethPrices = None
                           and frequency = "''1h''" and hourlyData = "[]"
                           and endTimestamp = 7200000 and currentTimestamp = 3600000
                           and seed = 42, THEN conjunct1]
  obtain pts where run: "historicalTvlLoop ''1h'' ''cumulative'' True None [] 7200000 3600000 42
                           = Inr pts"
    and const: "\<forall>p \<in> set pts. htr_tvlEth p = 42"
    by auto
  have "pts = [\<lparr> htr_timestamp = 3600000, htr_tvlEth = 42 \<rparr>,
               \<lparr> htr_timestamp = 7200000, htr_tvlEth = 42 \<rparr>]"
    using run two by simp
  then have len: "length pts = 2" by simp
  have ex: "\<exists>pts. historicalTvlLoop ''1h'' ''cumulative'' True None [] 7200000 3600000 42 = Inr pts
          \<and> length pts = 2 \<and> (\<forall>p \<in> set pts. htr_tvlEth p = 42)"
    by (rule exI [of _ pts]) (intro conjI run len const)
  show ?thesis by (intro conjI beacon restaking norows before delegate deposit ex)
qed

text \<open>
  The two routes of the withdrawal and deposit walk pass names that are not delegates
  of the client: whenever the seed has to be read before the window, the walk throws.
\<close>

lemma withdrawal_deposit_routes_throw:
  assumes "modelName = ''withdrawalMetricHourly'' \<or> modelName = ''depositMetricHourly''"
    and "findManyInWindow (metricDepositHourly mdb) (resetTime startAt) (resetTime endAt) = []"
  shows "doGetHistoricalTvlWithdrawalDeposit mdb modelName startAt endAt frequency ''cumulative''
           = Inl TypeError"
  using assms
  by (auto simp: doGetHistoricalTvlWithdrawalDeposit_def Let_def
        getInitialTvlCumulative_def prismaModel_def)

subsection \<open>Bucket counts\<close>

lemma beacon_seed:
  "\<exists>seed. (if variant = ''cumulative''
            then getInitialTvlCumulative mdb start hourly True ''metricEigenPodsHourly'' None
            else Inr 0) = Inr seed"
  by (simp add: getInitialTvlCumulative_eth [OF prismaModel_delegates(1)])


text \<open>
  C4. As stated (\<open>ceil((endAt - startAt) / offset) + 1\<close> points) the claim fails when
  the span is not a multiple of the offset: over the window from 0 to 3600000 (both
  at the start of an hour) with the daily offset the walk emits one point, and the
  formula gives two.
\<close>

theorem bucket_count_counterexample:
  "doGetHistoricalTvlBeacon emptyDb 0 3600000 ''1d'' ''cumulative'' =
     Inr [\<lparr> htr_timestamp = 0, htr_tvlEth = 0 \<rparr>]
   \<and> resetTime 0 = 0 \<and> resetTime 3600000 = 3600000
   \<and> \<lceil>real_of_int (3600000 - 0) / real_of_int (getOffsetInMs ''1d'')\<rceil> + 1 = (2::int)"
proof -
  have run: "doGetHistoricalTvlBeacon emptyDb 0 3600000 ''1d'' ''cumulative'' =
     Inr [\<lparr> htr_timestamp = 0, htr_tvlEth = 0 \<rparr>]"
    by (simp add: doGetHistoricalTvlBeacon_def resetTime_def findManyInWindow_def
          findFirstBefore_def getInitialTvlCumulative_def prismaModel_def emptyDb_def Let_def
          historicalTvlLoop.simps getOffsetInMs_def calculateTvlForHistoricalRecord_def)
  have r0: "resetTime 0 = 0" and r1: "resetTime 3600000 = 3600000"
    by (simp_all add: resetTime_def)
  have ceil: "\<lceil>real_of_int (3600000 - 0) / real_of_int (getOffsetInMs ''1d'')\<rceil> + 1 = (2::int)"
    by (simp add: getOffsetInMs_def ceiling_eq_iff)
  show ?thesis by (intro conjI run r0 r1 ceil)
qed

text \<open>
  C4, amended. For every window with \<open>startAt \<le> endAt\<close> after truncation to the hour,
  the bucket walk of \<open>doGetHistoricalTvlBeacon\<close> (for every frequency) and the bucket
  walk of \<open>doGetHistoricalAvsAggregate\<close> (for every frequency that is not the name of a
  member of \<open>Object.prototype\<close>, where it has the same offset for \<open>1h\<close>, \<open>1d\<close> and
  \<open>7d\<close>) emit exactly \<open>floor((endAt - startAt) / offset) + 1\<close> points (\<open>div\<close> on \<open>int\<close>
  rounds down); this is \<open>ceil((endAt - startAt) / offset) + 1\<close> when the offset divides
  the span, and one less otherwise.
\<close>

theorem bucket_count_floor:
  assumes "resetTime startAt \<le> resetTime endAt"
  shows "(\<exists>pts. doGetHistoricalTvlBeacon mdb startAt endAt frequency variant = Inr pts
            \<and> int (length pts)
                = (resetTime endAt - resetTime startAt) div getOffsetInMs frequency + 1)
       \<and> (frequency \<notin> set objectPrototypeMembers \<longrightarrow>
            (\<exists>timeInterval. avsTimeInterval frequency = Some timeInterval
               \<and> int (length (doGetHistoricalAvsAggregate metricAvsHourly address startAt endAt
                                 frequency variant))
                   = (resetTime endAt - resetTime startAt) div timeInterval + 1))
       \<and> (frequency \<in> {''1h'', ''1d'', ''7d''} \<longrightarrow>
            avsTimeInterval frequency = Some (getOffsetInMs frequency))
       \<and> \<lceil>real_of_int (resetTime endAt - resetTime startAt)
              / real_of_int (getOffsetInMs frequency)\<rceil> + 1
           = (resetTime endAt - resetTime startAt) div getOffsetInMs frequency + 1
             + (if getOffsetInMs frequency dvd resetTime endAt - resetTime startAt
                then 0 else 1)"
proof -
  let ?s = "resetTime startAt" and ?e = "resetTime endAt"
  let ?hourly = "findManyInWindow (metricEigenPodsHourly mdb) ?s ?e"
  have nn: "0 \<le> (?e - ?s) div off" if "0 < off" for off :: int
    using assms that by (simp add: pos_imp_zdiv_nonneg_iff)
  obtain seed where seed:
    "(if variant = ''cumulative''
      then getInitialTvlCumulative mdb ?s ?hourly True ''metricEigenPodsHourly'' None
      else Inr 0) = Inr seed"
    using beacon_seed by blast
  from historicalTvlLoop_length [of True None frequency variant ?hourly ?e ?s seed]
  obtain pts where loop: "historicalTvlLoop frequency variant True None ?hourly ?e ?s seed = Inr pts"
    and len: "length pts = nat ((?e - ?s) div getOffsetInMs frequency) + 1"
    using assms by auto
  have run: "doGetHistoricalTvlBeacon mdb startAt endAt frequency variant = Inr pts"
    using seed loop by (simp add: doGetHistoricalTvlBeacon_def Let_def)
  have ilen: "int (length pts) = (?e - ?s) div getOffsetInMs frequency + 1"
    using len nn [OF getOffsetInMs_pos, of frequency] by simp
  have beacon: "\<exists>pts. doGetHistoricalTvlBeacon mdb startAt endAt frequency variant = Inr pts
            \<and> int (length pts) = (?e - ?s) div getOffsetInMs frequency + 1"
    by (rule exI [of _ pts]) (intro conjI run ilen)
  have avs: "frequency \<notin> set objectPrototypeMembers \<longrightarrow>
            (\<exists>timeInterval. avsTimeInterval frequency = Some timeInterval
               \<and> int (length (doGetHistoricalAvsAggregate metricAvsHourly address startAt endAt
                                 frequency variant))
                   = (?e - ?s) div timeInterval + 1)"
  proof
    assume "frequency \<notin> set objectPrototypeMembers"
    from avsTimeInterval_number [OF this]
    obtain t where t: "avsTimeInterval frequency = Some t" by blast
    have "int (length (doGetHistoricalAvsAggregate metricAvsHourly address startAt endAt
                         frequency variant)) = (?e - ?s) div t + 1"
      using assms nn [OF avsTimeInterval_pos [OF t]]
      by (simp add: doGetHistoricalAvsAggregate_def Let_def avsAggregateLoop_length [OF t])
    with t show "\<exists>timeInterval. avsTimeInterval frequency = Some timeInterval
               \<and> int (length (doGetHistoricalAvsAggregate metricAvsHourly address startAt endAt
                                 frequency variant))
                   = (?e - ?s) div timeInterval + 1"
      by blast
  qed
  have same: "frequency \<in> {''1h'', ''1d'', ''7d''} \<longrightarrow>
            avsTimeInterval frequency = Some (getOffsetInMs frequency)"
    by (auto simp: avsTimeInterval_def getOffsetInMs_def)
  have ceil: "\<lceil>real_of_int (?e - ?s) / real_of_int (getOffsetInMs frequency)\<rceil> + 1
           = (?e - ?s) div getOffsetInMs frequency + 1
             + (if getOffsetInMs frequency dvd ?e - ?s then 0 else 1)"
    using ceiling_floor_div [OF getOffsetInMs_pos, of "?e - ?s" frequency] by simp
  show ?thesis by (intro conjI beacon avs same ceil)
qed

theorem bucket_count_floor_witness:
  "resetTime 0 \<le> resetTime 3600000
   \<and> (\<exists>pts. doGetHistoricalTvlBeacon emptyDb 0 3600000 ''1d'' ''cumulative'' = Inr pts
          \<and> int (length pts) = 1)
   \<and> ''1d'' \<notin> set objectPrototypeMembers
   \<and> int (length (doGetHistoricalAvsAggregate [] ''0xA'' 0 3600000 ''1d'' ''cumulative'')) = 1
   \<and> ''1h'' \<in> {''1h'', ''1d'', ''7d''}
   \<and> avsTimeInterval ''1h'' = Some 3600000"
proof -
  have h: "resetTime 0 \<le> resetTime 3600000" by (simp add: resetTime_def)
  have d1: "(resetTime 3600000 - resetTime 0) div getOffsetInMs ''1d'' + 1 = 1"
    by (simp add: resetTime_def getOffsetInMs_def)
  have day: "avsTimeInterval ''1d'' = Some 86400000" by (simp add: avsTimeInterval_def)
  have d2: "(resetTime 3600000 - resetTime 0) div 86400000 + 1 = 1"
    by (simp add: resetTime_def)
  have nm: "''1d'' \<notin> set objectPrototypeMembers" by (simp add: objectPrototypeMembers_def)
  have k: "''1h'' \<in> {''1h'', ''1d'', ''7d''}" by simp
  note t = bucket_count_floor [OF h, of emptyDb "''1d''" "''cumulative''" "[]" "''0xA''"]
  have beacon: "\<exists>pts. doGetHistoricalTvlBeacon emptyDb 0 3600000 ''1d'' ''cumulative'' = Inr pts
          \<and> int (length pts) = 1"
    using t [THEN conjunct1] unfolding d1 .
  have avs: "int (length (doGetHistoricalAvsAggregate [] ''0xA'' 0 3600000 ''1d''
                            ''cumulative'')) = 1"
    using t [THEN conjunct2, THEN conjunct1] nm day d2 by auto
  have hour: "avsTimeInterval ''1h'' = Some 3600000"
    using bucket_count_floor [OF h, of emptyDb "''1h''" "''cumulative''" "[]" "''0xA''",
            THEN conjunct2, THEN conjunct2, THEN conjunct1] k
    by (simp add: getOffsetInMs_def)
  show ?thesis by (intro conjI h beacon nm avs k hour)
qed

text \<open>
  A frequency that names a member of \<open>Object.prototype\<close> gives no number: the walk of
  \<open>doGetHistoricalAvsAggregate\<close> then emits a single point.
\<close>

lemma avsAggregate_inherited_member:
  assumes "resetTime startAt \<le> resetTime endAt" and "avsTimeInterval frequency = None"
  shows "length (doGetHistoricalAvsAggregate metricAvsHourly address startAt endAt
                   frequency variant) = 1"
  using assms
  by (simp add: doGetHistoricalAvsAggregate_def Let_def avsAggregateLoop_not_a_number)

lemma avsTimeInterval_toString: "avsTimeInterval ''toString'' = None"
  by (simp add: avsTimeInterval_def objectPrototypeMembers_def)

subsection \<open>Composition of the two TVL series\<close>







text \<open>
  The callback only visits the indices of the beacon series. A restaking series with
  more points would raise nothing; by \<open>doGetHistoricalTvlTotal_aligned\<close> the two walks
  never produce one.
\<close>

lemma combineTvl_surplus_restaking:
  "combineTvl 0 [\<lparr> htr_timestamp = 0, htr_tvlEth = 1 \<rparr>]
     [\<lparr> htr_timestamp = 0, htr_tvlEth = 2 \<rparr>, \<lparr> htr_timestamp = 3600000, htr_tvlEth = 3 \<rparr>]
   = Inr [\<lparr> htr_timestamp = 0, htr_tvlEth = 3 \<rparr>]"
  by simp

subsection \<open>Point-in-time changes\<close>

text \<open>
  C8. \<open>calculateTvlChanges\<close> returns, for each of the two offsets, the change
  \<open>current - offset\<close> and the percent \<open>(current - offset) / offset\<close>, with percent 0
  when the offset is 0; a current value of 110 with a 24h offset of 100 and a 7d offset
  of 0 gives \<open>{value: 10, percent: 0.1}\<close> and \<open>{value: 110, percent: 0}\<close>.
\<close>

theorem calculateTvlChanges_values:
  "tcs_tvl (calculateTvlChanges c o24 o7) = c
   \<and> tc_value (tcs_change24h (calculateTvlChanges c o24 o7)) = c - o24
   \<and> tc_percent (tcs_change24h (calculateTvlChanges c o24 o7))
       = (if o24 = 0 then 0 else (c - o24) / o24)
   \<and> tc_value (tcs_change7d (calculateTvlChanges c o24 o7)) = c - o7
   \<and> tc_percent (tcs_change7d (calculateTvlChanges c o24 o7))
       = (if o7 = 0 then 0 else (c - o7) / o7)
   \<and> calculateTvlChanges 110 100 0 =
       \<lparr> tcs_tvl = 110,
         tcs_change24h = \<lparr> tc_value = 10, tc_percent = 1 / 10 \<rparr>,
         tcs_change7d = \<lparr> tc_value = 110, tc_percent = 0 \<rparr> \<rparr>"
  by (simp add: calculateTvlChanges_def)

end
